theory Spec2Isabelle
  imports Main "HOL-Library.Word"
begin

unbundle bit_operations_syntax

section \<open>Package audit: events and their JSON form\<close>

text \<open>
  The capture time of an event, as the calendar fields of the value returned by
  \<open>time.Now()\<close>. The clock is an input of every operation that reads it.
\<close>

record Time =
  tYear :: nat
  tMonth :: nat
  tDay :: nat
  tHour :: nat
  tMinute :: nat
  tSecond :: nat

text \<open>\<open>type EventType string\<close> with its five constants.\<close>

datatype EventType = EventCommand | EventPortOpen | EventNetwork | EventDNS | EventFile

fun EventType_string :: "EventType \<Rightarrow> string" where
  "EventType_string EventCommand = ''command''"
| "EventType_string EventPortOpen = ''port_open''"
| "EventType_string EventNetwork = ''network''"
| "EventType_string EventDNS = ''dns''"
| "EventType_string EventFile = ''file''"

record PortDetails =
  pdProtocol :: string
  pdPort :: int
  pdAddress :: string

record NetworkDetails =
  ndProtocol :: string
  ndSrcIP :: string
  ndSrcPort :: int
  ndDstIP :: string
  ndDstPort :: int

record DNSDetails =
  ddDomain :: string
  ddResolved :: string
  ddType :: string

text \<open>
  The field \<open>Details interface{}\<close>: nil, or one of the three detail structs the
  package stores in it.
\<close>

datatype details =
    DetailsNil
  | DetailsPort PortDetails
  | DetailsNetwork NetworkDetails
  | DetailsDNS DNSDetails

text \<open>
  \<open>type AuditEvent struct\<close>. \<open>ExitCode\<close> is a plain \<open>int\<close>: the struct has no
  separate "absent" state, a fresh event holds the zero value.
\<close>

record AuditEvent =
  Timestamp :: Time
  Type :: EventType
  PID :: int
  PPID :: int
  UID :: int
  GID :: int
  Username :: string
  Command :: string
  Args :: "string list"
  ExitCode :: int
  WorkingDir :: string
  Details :: details

text \<open>
  The value tree that \<open>encoding/json\<close> builds from an event before it renders text:
  an object is the list of its members in struct order.
\<close>

datatype json =
    JString string
  | JInt int
  | JTime Time
  | JArray "json list"
  | JObject "(string \<times> json) list"

fun PortDetails_json :: "PortDetails \<Rightarrow> json" where
  "PortDetails_json d = JObject
     [(''protocol'', JString (pdProtocol d)),
      (''port'', JInt (pdPort d)),
      (''address'', JString (pdAddress d))]"

fun NetworkDetails_json :: "NetworkDetails \<Rightarrow> json" where
  "NetworkDetails_json d = JObject
     [(''protocol'', JString (ndProtocol d)),
      (''src_ip'', JString (ndSrcIP d)),
      (''src_port'', JInt (ndSrcPort d)),
      (''dst_ip'', JString (ndDstIP d)),
      (''dst_port'', JInt (ndDstPort d))]"

fun DNSDetails_json :: "DNSDetails \<Rightarrow> json" where
  "DNSDetails_json d = JObject
     [(''domain'', JString (ddDomain d)),
      (''resolved'', JString (ddResolved d)),
      (''type'', JString (ddType d))]"

text \<open>
  The members a struct tag with \<open>omitempty\<close> contributes: none when the field holds
  the empty value of its type (\<open>""\<close>, a slice of length 0, the integer 0, a nil
  interface), one otherwise.
\<close>

fun omitempty_string :: "string \<Rightarrow> string \<Rightarrow> (string \<times> json) list" where
  "omitempty_string k v = (if v = [] then [] else [(k, JString v)])"

fun omitempty_strings :: "string \<Rightarrow> string list \<Rightarrow> (string \<times> json) list" where
  "omitempty_strings k vs = (if vs = [] then [] else [(k, JArray (map JString vs))])"

fun omitempty_int :: "string \<Rightarrow> int \<Rightarrow> (string \<times> json) list" where
  "omitempty_int k n = (if n = 0 then [] else [(k, JInt n)])"

fun omitempty_details :: "string \<Rightarrow> details \<Rightarrow> (string \<times> json) list" where
  "omitempty_details k DetailsNil = []"
| "omitempty_details k (DetailsPort d) = [(k, PortDetails_json d)]"
| "omitempty_details k (DetailsNetwork d) = [(k, NetworkDetails_json d)]"
| "omitempty_details k (DetailsDNS d) = [(k, DNSDetails_json d)]"

text \<open>
  The members of the JSON object of an event, following the struct tags of
  \<open>AuditEvent\<close> field by field.
\<close>

definition AuditEvent_members :: "AuditEvent \<Rightarrow> (string \<times> json) list" where
  "AuditEvent_members e =
     [(''timestamp'', JTime (Timestamp e)),
      (''type'', JString (EventType_string (Type e))),
      (''pid'', JInt (PID e)),
      (''ppid'', JInt (PPID e)),
      (''uid'', JInt (UID e)),
      (''gid'', JInt (GID e)),
      (''username'', JString (Username e))]
     @ omitempty_string ''command'' (Command e)
     @ omitempty_strings ''args'' (Args e)
     @ omitempty_int ''exit_code'' (ExitCode e)
     @ omitempty_string ''working_dir'' (WorkingDir e)
     @ omitempty_details ''details'' (Details e)"

text \<open>\<open>func (e *AuditEvent) ToJSON()\<close>, up to the rendering of the tree as text.\<close>

definition ToJSON :: "AuditEvent \<Rightarrow> json" where
  "ToJSON e = JObject (AuditEvent_members e)"

text \<open>The value stored under a key of a JSON object, if the key occurs.\<close>

fun json_member :: "json \<Rightarrow> string \<Rightarrow> json option" where
  "json_member (JObject ms) k = map_of ms k"
| "json_member _ k = None"

section \<open>Package audit: the sinks\<close>

text \<open>Errors returned as values, and the run-time panics of Go.\<close>

datatype error = ErrClosed | ErrInvalid | ErrMkdir | ErrOpen | ErrWrite | ErrSync

datatype panic = SliceBoundsOutOfRange | IndexOutOfRange | NilDereference

text \<open>
  An \<open>*os.File\<close>: the path it was opened on and whether \<open>Close\<close> has been called.
  The operating system: the bytes of every file by path, the paths of the descriptors
  that are open, the bytes written to standard output, and the errors reported on
  standard error.
\<close>

record File =
  fName :: string
  fClosed :: bool

record OS =
  files :: "string \<rightharpoonup> string"
  handles :: "string list"
  stdout :: string
  stderr :: "error list"

text \<open>The outcome of the system calls of one operation, decided by the environment.\<close>

record io =
  mkdir_fails :: bool
  open_fails :: bool
  write_fails :: bool
  sync_fails :: bool

text \<open>
  \<open>os.OpenFile(path, O_CREATE|O_WRONLY|O_APPEND, 0644)\<close>: the file is created empty
  when it does not exist and keeps its content when it does.
\<close>

definition OpenFile :: "io \<Rightarrow> string \<Rightarrow> OS \<Rightarrow> error + (File \<times> OS)" where
  "OpenFile env path os =
     (if open_fails env then Inl ErrOpen
      else Inr (\<lparr>fName = path, fClosed = False\<rparr>,
                os\<lparr>files := (files os)(path \<mapsto>
                     (case files os path of None \<Rightarrow> [] | Some c \<Rightarrow> c)),
                   handles := handles os @ [path]\<rparr>))"

text \<open>\<open>(*os.File).Close\<close>: an error, and no effect, on a file already closed.\<close>

definition File_Close :: "File \<Rightarrow> OS \<Rightarrow> error option \<times> File \<times> OS" where
  "File_Close f os =
     (if fClosed f then (Some ErrClosed, f, os)
      else (None, f\<lparr>fClosed := True\<rparr>, os\<lparr>handles := remove1 (fName f) (handles os)\<rparr>))"

text \<open>\<open>(*os.File).Write\<close> in append mode.\<close>

definition File_Write :: "io \<Rightarrow> File \<Rightarrow> string \<Rightarrow> OS \<Rightarrow> error option \<times> OS" where
  "File_Write env f bs os =
     (if fClosed f then (Some ErrClosed, os)
      else if write_fails env then (Some ErrWrite, os)
      else (None, os\<lparr>files := (files os)(fName f \<mapsto>
                     (case files os (fName f) of None \<Rightarrow> [] | Some c \<Rightarrow> c) @ bs)\<rparr>))"

definition File_Sync :: "io \<Rightarrow> File \<Rightarrow> error option" where
  "File_Sync env f =
     (if fClosed f then Some ErrClosed else if sync_fails env then Some ErrSync else None)"

text \<open>The bytes of the file at a path; none when there is no such file.\<close>

definition content :: "OS \<Rightarrow> string \<Rightarrow> string" where
  "content os p = (case files os p of None \<Rightarrow> [] | Some c \<Rightarrow> c)"

record FileLogger =
  filePath :: string
  flFile :: File

record RotatingLogger =
  basePath :: string
  rlMaxSize :: int
  currentSize :: int
  currentFile :: "File option"

text \<open>The three implementations of \<open>interface Logger\<close>.\<close>

datatype Logger = LoggerFile FileLogger | LoggerRotating RotatingLogger | LoggerStdout

text \<open>
  \<open>json.Marshal\<close> of an event is the text of its value tree. The renderer of trees
  as text belongs to the standard library and is a parameter \<open>render\<close> of every sink.
  The line feed is the byte 10.
\<close>

definition newline :: string where
  "newline = [CHR 0x0A]"

definition NewFileLogger :: "io \<Rightarrow> string \<Rightarrow> OS \<Rightarrow> error + (FileLogger \<times> OS)" where
  "NewFileLogger env path os =
     (if mkdir_fails env then Inl ErrMkdir
      else case OpenFile env path os of
             Inl err \<Rightarrow> Inl err
           | Inr (f, os') \<Rightarrow> Inr (\<lparr>filePath = path, flFile = f\<rparr>, os'))"

definition FileLogger_Log ::
  "(json \<Rightarrow> string) \<Rightarrow> io \<Rightarrow> AuditEvent \<Rightarrow> FileLogger \<Rightarrow> OS \<Rightarrow> error option \<times> OS" where
  "FileLogger_Log render env event l os =
     (let data = render (ToJSON event)
      in case File_Write env (flFile l) (data @ newline) os of
           (Some err, os') \<Rightarrow> (Some err, os')
         | (None, os') \<Rightarrow> (File_Sync env (flFile l), os'))"

definition FileLogger_Close :: "FileLogger \<Rightarrow> OS \<Rightarrow> error option \<times> FileLogger \<times> OS" where
  "FileLogger_Close l os =
     (case File_Close (flFile l) os of (err, f, os') \<Rightarrow> (err, l\<lparr>flFile := f\<rparr>, os'))"

text \<open>Decimal digits, and a number padded with zeros to a width, as \<open>Format\<close> prints.\<close>

definition digit_char :: "nat \<Rightarrow> char" where
  "digit_char d = ''0123456789'' ! d"

fun decimal :: "nat \<Rightarrow> string" where
  "decimal n = (if n < 10 then [digit_char n] else decimal (n div 10) @ [digit_char (n mod 10)])"

definition zero_pad :: "nat \<Rightarrow> nat \<Rightarrow> string" where
  "zero_pad w n = replicate (w - length (decimal n)) (CHR ''0'') @ decimal n"

text \<open>\<open>time.Now().Format("20060102-150405")\<close>.\<close>

definition format_timestamp :: "Time \<Rightarrow> string" where
  "format_timestamp t =
     zero_pad 4 (tYear t) @ zero_pad 2 (tMonth t) @ zero_pad 2 (tDay t) @ ''-'' @
     zero_pad 2 (tHour t) @ zero_pad 2 (tMinute t) @ zero_pad 2 (tSecond t)"

text \<open>Arithmetic on \<open>int64\<close>: the result of an operation, wrapped into the type.\<close>

definition wrap64 :: "int \<Rightarrow> int" where
  "wrap64 x = (x + 2 ^ 63) mod 2 ^ 64 - 2 ^ 63"

text \<open>
  \<open>func (rl *RotatingLogger) rotate()\<close>. The error of closing the old file is dropped;
  when the new file cannot be opened the fields keep their values.
\<close>

definition rotate ::
  "Time \<Rightarrow> io \<Rightarrow> RotatingLogger \<Rightarrow> OS \<Rightarrow> error option \<times> RotatingLogger \<times> OS" where
  "rotate now env rl os =
     (let (rl1, os1) =
            (case currentFile rl of
               None \<Rightarrow> (rl, os)
             | Some f \<Rightarrow> (case File_Close f os of
                            (err, f', os') \<Rightarrow> (rl\<lparr>currentFile := Some f'\<rparr>, os')));
          path = basePath rl @ ''.'' @ format_timestamp now @ ''.log''
      in case OpenFile env path os1 of
           Inl err \<Rightarrow> (Some err, rl1, os1)
         | Inr (f, os2) \<Rightarrow> (None, rl1\<lparr>currentFile := Some f, currentSize := 0\<rparr>, os2))"

definition NewRotatingLogger ::
  "Time \<Rightarrow> io \<Rightarrow> string \<Rightarrow> int \<Rightarrow> OS \<Rightarrow> error + (RotatingLogger \<times> OS)" where
  "NewRotatingLogger now env path maxSizeMB os =
     (let mb = (if maxSizeMB \<le> 0 then 100 else maxSizeMB);
          rl = \<lparr>basePath = path, rlMaxSize = wrap64 (wrap64 (mb * 1024) * 1024),
                currentSize = 0, currentFile = None\<rparr>
      in case rotate now env rl os of
           (Some err, rl', os') \<Rightarrow> Inl err
         | (None, rl', os') \<Rightarrow> Inr (rl', os'))"

text \<open>
  \<open>func (rl *RotatingLogger) Log(event AuditEvent)\<close>. The methods of a nil
  \<open>*os.File\<close> return \<open>ErrInvalid\<close>.
\<close>

definition RotatingLogger_Log ::
  "(json \<Rightarrow> string) \<Rightarrow> Time \<Rightarrow> io \<Rightarrow> AuditEvent \<Rightarrow> RotatingLogger \<Rightarrow> OS
     \<Rightarrow> error option \<times> RotatingLogger \<times> OS" where
  "RotatingLogger_Log render now env event rl os =
     (let data = render (ToJSON event);
          (err, rl1, os1) =
            (if wrap64 (currentSize rl + int (length data)) > rlMaxSize rl
             then rotate now env rl os else (None, rl, os))
      in if err \<noteq> None then (err, rl1, os1)
         else case currentFile rl1 of
                None \<Rightarrow> (Some ErrInvalid, rl1, os1)
              | Some f \<Rightarrow>
                  (case File_Write env f (data @ newline) os1 of
                     (Some werr, os2) \<Rightarrow> (Some werr, rl1, os2)
                   | (None, os2) \<Rightarrow>
                       (File_Sync env f,
                        rl1\<lparr>currentSize := wrap64 (currentSize rl1 + (int (length data) + 1))\<rparr>,
                        os2)))"

definition RotatingLogger_Close ::
  "RotatingLogger \<Rightarrow> OS \<Rightarrow> error option \<times> RotatingLogger \<times> OS" where
  "RotatingLogger_Close rl os =
     (case currentFile rl of
        None \<Rightarrow> (None, rl, os)
      | Some f \<Rightarrow> (case File_Close f os of
                     (err, f', os') \<Rightarrow> (err, rl\<lparr>currentFile := Some f'\<rparr>, os')))"

text \<open>\<open>func (l *StdoutLogger) Log\<close>: \<open>fmt.Println\<close> of the text.\<close>

definition StdoutLogger_Log :: "(json \<Rightarrow> string) \<Rightarrow> AuditEvent \<Rightarrow> OS \<Rightarrow> error option \<times> OS" where
  "StdoutLogger_Log render event os =
     (None, os\<lparr>stdout := stdout os @ render (ToJSON event) @ newline\<rparr>)"

text \<open>The two methods of the interface, dispatched on the implementation.\<close>

fun Logger_Log ::
  "(json \<Rightarrow> string) \<Rightarrow> Time \<Rightarrow> io \<Rightarrow> AuditEvent \<Rightarrow> Logger \<Rightarrow> OS
     \<Rightarrow> error option \<times> Logger \<times> OS" where
  "Logger_Log render now env event (LoggerFile l) os =
     (case FileLogger_Log render env event l os of (err, os') \<Rightarrow> (err, LoggerFile l, os'))"
| "Logger_Log render now env event (LoggerRotating rl) os =
     (case RotatingLogger_Log render now env event rl os of
        (err, rl', os') \<Rightarrow> (err, LoggerRotating rl', os'))"
| "Logger_Log render now env event LoggerStdout os =
     (case StdoutLogger_Log render event os of (err, os') \<Rightarrow> (err, LoggerStdout, os'))"

fun Logger_Close :: "Logger \<Rightarrow> OS \<Rightarrow> error option \<times> Logger \<times> OS" where
  "Logger_Close (LoggerFile l) os =
     (case FileLogger_Close l os of (err, l', os') \<Rightarrow> (err, LoggerFile l', os'))"
| "Logger_Close (LoggerRotating rl) os =
     (case RotatingLogger_Close rl os of (err, rl', os') \<Rightarrow> (err, LoggerRotating rl', os'))"
| "Logger_Close LoggerStdout os = (None, LoggerStdout, os)"

text \<open>
  The line a sink writes for an event, the serialized event and a line feed, and the
  lines of several events one after the other.
\<close>

definition sink_line :: "(json \<Rightarrow> string) \<Rightarrow> AuditEvent \<Rightarrow> string" where
  "sink_line render e = render (ToJSON e) @ newline"

definition sink_lines :: "(json \<Rightarrow> string) \<Rightarrow> AuditEvent list \<Rightarrow> string" where
  "sink_lines render es = concat (map (sink_line render) es)"

section \<open>Package bpf: the decoder of raw records\<close>

type_synonym byte = "8 word"

text \<open>
  \<open>type ExecveEvent struct\<close>. The arrays \<open>[16]byte\<close>, \<open>[512]byte\<close> and \<open>[256]byte\<close>
  are byte lists; the decoder reads their length where the source reads \<open>len\<close>.
\<close>

record ExecveEvent =
  ePID :: "32 word"
  ePPID :: "32 word"
  eUID :: "32 word"
  eGID :: "32 word"
  eComm :: "byte list"
  eArgCount :: "32 word"
  eArgs :: "byte list"
  eWorkingDir :: "byte list"

record ConnectEvent =
  cPID :: "32 word"
  cUID :: "32 word"
  cGID :: "32 word"
  cComm :: "byte list"
  SrcAddr :: "byte list"
  SrcPort :: "16 word"
  DstAddr :: "byte list"
  DstPort :: "16 word"
  cProtocol :: byte

record BindEvent =
  bPID :: "32 word"
  bUID :: "32 word"
  bGID :: "32 word"
  bComm :: "byte list"
  bAddress :: "byte list"
  bPort :: "16 word"
  bProtocol :: byte

text \<open>
  \<open>func bytesToString(b []byte) string\<close>: the bytes before the first zero byte, all of
  them when there is none. A Go string is its bytes.
\<close>

definition bytesToString :: "byte list \<Rightarrow> byte list" where
  "bytesToString b = takeWhile (\<lambda>x. x \<noteq> 0) b"

text \<open>
  The slice expression \<open>xs[lo:hi]\<close> with \<open>uint32\<close> bounds on a slice whose capacity
  is its length: a run-time panic unless \<open>lo \<le> hi \<le> len(xs)\<close>.
\<close>

definition slice :: "'a list \<Rightarrow> 32 word \<Rightarrow> 32 word \<Rightarrow> panic + 'a list" where
  "slice xs lo hi =
     (if unat lo \<le> unat hi \<and> unat hi \<le> length xs
      then Inr (take (unat hi - unat lo) (drop (unat lo) xs))
      else Inl SliceBoundsOutOfRange)"

text \<open>\<open>binary.LittleEndian.Uint32\<close>, which reads the first four bytes.\<close>

fun LittleEndian_Uint32 :: "byte list \<Rightarrow> panic + 32 word" where
  "LittleEndian_Uint32 (b0 # b1 # b2 # b3 # rest) =
     Inr (ucast b0 OR push_bit 8 (ucast b1) OR push_bit 16 (ucast b2) OR push_bit 24 (ucast b3))"
| "LittleEndian_Uint32 _ = Inl IndexOutOfRange"

text \<open>
  The loop of \<open>ParseExecveEvent\<close>, with the loop variable \<open>i\<close>, \<open>offset\<close> and
  \<open>args\<close> as arguments. All arithmetic is on \<open>uint32\<close> and wraps.
\<close>

function ParseExecveEvent_loop ::
  "byte list \<Rightarrow> 32 word \<Rightarrow> 32 word \<Rightarrow> 32 word \<Rightarrow> byte list list \<Rightarrow> panic + byte list list" where
  "ParseExecveEvent_loop argData argCount i offset args =
     (if \<not> i < argCount then Inr args
      else if offset \<ge> of_nat (length argData) then Inr args
      else if offset + 4 > of_nat (length argData) then Inr args
      else case slice argData offset (offset + 4) of
             Inl p \<Rightarrow> Inl p
           | Inr lenBytes \<Rightarrow>
               (case LittleEndian_Uint32 lenBytes of
                  Inl p \<Rightarrow> Inl p
                | Inr strLen \<Rightarrow>
                    if offset + 4 + strLen > of_nat (length argData) then Inr args
                    else (case slice argData (offset + 4) (offset + 4 + strLen) of
                            Inl p \<Rightarrow> Inl p
                          | Inr argBytes \<Rightarrow>
                              ParseExecveEvent_loop argData argCount (i + 1)
                                (offset + 4 + strLen) (args @ [bytesToString argBytes]))))"
  by pat_completeness auto
termination
proof (relation "measure (\<lambda>(argData, argCount, i, offset, args). unat argCount - unat i)")
  show "wf (measure (\<lambda>(argData, argCount, i, offset, args). unat argCount - unat i))" by simp
next
  fix argData :: "byte list" and argCount i offset :: "32 word" and args :: "byte list list"
    and x2 x2a x2b
  assume "\<not> \<not> i < argCount"
  then have "unat i < unat argCount" by (simp add: word_less_nat_alt)
  moreover from this have "unat (i + 1) = unat i + 1"
  proof -
    assume a: "unat i < unat argCount"
    have "unat argCount < 2 ^ 32" using unsigned_less [of argCount] by simp
    with a have "unat i + unat (1 :: 32 word) < 2 ^ LENGTH(32)" by simp
    then have "unat (i + 1) = unat i + unat (1 :: 32 word)"
      by (simp only: unat_add_lem [THEN iffD1])
    then show ?thesis by simp
  qed
  ultimately show "((argData, argCount, i + 1, offset + 4 + x2a, args @ [bytesToString x2b]),
        (argData, argCount, i, offset, args))
       \<in> measure (\<lambda>(argData, argCount, i, offset, args). unat argCount - unat i)"
    by simp
qed


definition ParseExecveEvent :: "ExecveEvent \<Rightarrow> panic + (byte list \<times> byte list list \<times> byte list)" where
  "ParseExecveEvent e =
     (case ParseExecveEvent_loop (eArgs e) (eArgCount e) 0 0 [] of
        Inl p \<Rightarrow> Inl p
      | Inr args \<Rightarrow> Inr (bytesToString (eComm e), args, bytesToString (eWorkingDir e)))"

text \<open>
  What the loop computes, as a function of the region that remains at \<open>off\<close>: it
  stops when fewer than four bytes remain or the argument does not fit, and it panics
  when \<open>off + 4 + strLen\<close> does not fit in 32 bits.
\<close>

fun decode_args :: "nat \<Rightarrow> nat \<Rightarrow> byte list \<Rightarrow> panic + byte list list" where
  "decode_args 0 off region = Inr []"
| "decode_args (Suc n) off region =
     (case LittleEndian_Uint32 region of
        Inl p \<Rightarrow> Inr []
      | Inr strLen \<Rightarrow>
          if off + 4 + unat strLen \<ge> 2 ^ 32 then Inl SliceBoundsOutOfRange
          else if 4 + unat strLen > length region then Inr []
          else (case decode_args n (off + 4 + unat strLen) (drop (4 + unat strLen) region) of
                  Inl p \<Rightarrow> Inl p
                | Inr xs \<Rightarrow> Inr (bytesToString (take (unat strLen) (drop 4 region)) # xs)))"

text \<open>
  The length-prefixed run in the words of the specification: each argument is a 4-byte
  little-endian length followed by that many bytes; decoding stops after \<open>n\<close> entries
  or when the remaining region cannot hold a full length-prefixed argument.
\<close>

fun length_prefixed_run :: "nat \<Rightarrow> byte list \<Rightarrow> byte list list" where
  "length_prefixed_run 0 region = []"
| "length_prefixed_run (Suc n) region =
     (case LittleEndian_Uint32 region of
        Inl p \<Rightarrow> []
      | Inr strLen \<Rightarrow>
          if 4 + unat strLen > length region then []
          else take (unat strLen) (drop 4 region)
                 # length_prefixed_run n (drop (4 + unat strLen) region))"

text \<open>An index expression \<open>xs[i]\<close>: a run-time panic when \<open>i\<close> is out of range.\<close>

definition index :: "'a list \<Rightarrow> nat \<Rightarrow> panic + 'a" where
  "index xs i = (if i < length xs then Inr (xs ! i) else Inl IndexOutOfRange)"

text \<open>
  A chain \<open>b[i] == v && ...\<close>: evaluation stops at the first comparison that is
  false, and panics at the first index out of range before that.
\<close>

fun index_chain :: "byte list \<Rightarrow> (nat \<times> byte) list \<Rightarrow> panic + bool" where
  "index_chain b [] = Inr True"
| "index_chain b ((i, v) # rest) =
     (case index b i of
        Inl p \<Rightarrow> Inl p
      | Inr x \<Rightarrow> if x = v then index_chain b rest else Inr False)"

text \<open>
  The functions of the standard library that \<open>ipToString\<close> calls, modelled from their
  documented behaviour: \<open>net.IPv4\<close> builds the 16-byte IPv4-mapped form, \<open>IP.To4\<close>
  recognises it, and \<open>IP.String\<close> prints dotted decimal for it and otherwise the
  IPv6 text form, eight hexadecimal groups with the longest run of two or more zero
  groups (the first of equally long ones) written as \<open>::\<close>.
\<close>

definition v4InV6Prefix :: "byte list" where
  "v4InV6Prefix = [0, 0, 0, 0, 0, 0, 0, 0, 0, 0, 0xff, 0xff]"

definition net_IPv4 :: "byte \<Rightarrow> byte \<Rightarrow> byte \<Rightarrow> byte \<Rightarrow> byte list" where
  "net_IPv4 a b c d = v4InV6Prefix @ [a, b, c, d]"

definition IP_To4 :: "byte list \<Rightarrow> byte list option" where
  "IP_To4 ip =
     (if length ip = 4 then Some ip
      else if length ip = 16 \<and> list_all (\<lambda>x. x = 0) (take 10 ip) \<and> ip ! 10 = 0xff \<and> ip ! 11 = 0xff
      then Some (drop 12 ip)
      else None)"

fun join :: "string \<Rightarrow> string list \<Rightarrow> string" where
  "join sep [] = []"
| "join sep [x] = x"
| "join sep (x # y # ys) = x @ sep @ join sep (y # ys)"

definition dotted :: "byte list \<Rightarrow> string" where
  "dotted p4 = join ''.'' (map (\<lambda>x. decimal (unat x)) p4)"

definition hex_digit :: "nat \<Rightarrow> char" where
  "hex_digit d = ''0123456789abcdef'' ! d"

fun hex :: "nat \<Rightarrow> string" where
  "hex n = (if n < 16 then [hex_digit n] else hex (n div 16) @ [hex_digit (n mod 16)])"

definition v6u16 :: "byte list \<Rightarrow> nat \<Rightarrow> nat" where
  "v6u16 ip i = 256 * unat (ip ! (2 * i)) + unat (ip ! (2 * i + 1))"

definition zero_run :: "nat list \<Rightarrow> nat \<Rightarrow> nat" where
  "zero_run gs i = length (takeWhile (\<lambda>g. g = 0) (drop i gs))"

definition longest_zero_run :: "nat list \<Rightarrow> nat \<times> nat" where
  "longest_zero_run gs =
     fold (\<lambda>i (zeroStart, zeroEnd).
             if zero_run gs i \<ge> 2 \<and> zero_run gs i > zeroEnd - zeroStart
             then (i, i + zero_run gs i) else (zeroStart, zeroEnd))
          [0..<8] (255, 255)"

definition string6 :: "byte list \<Rightarrow> string" where
  "string6 ip =
     (let gs = map (v6u16 ip) [0..<8]; (zeroStart, zeroEnd) = longest_zero_run gs
      in if zeroStart = 255 then join '':'' (map hex gs)
         else join '':'' (map hex (take zeroStart gs)) @ ''::'' @
              join '':'' (map hex (drop zeroEnd gs)))"

definition hexString :: "byte list \<Rightarrow> string" where
  "hexString b = concat (map (\<lambda>x. [hex_digit (unat x div 16), hex_digit (unat x mod 16)]) b)"

definition IP_String :: "byte list \<Rightarrow> string" where
  "IP_String ip =
     (if length ip = 0 then ''<nil>''
      else if length ip \<noteq> 4 \<and> length ip \<noteq> 16 then ''?'' @ hexString ip
      else case IP_To4 ip of Some p4 \<Rightarrow> dotted p4 | None \<Rightarrow> string6 ip)"

text \<open>Index expressions evaluated in a row: the first one out of range panics.\<close>

fun index_all :: "'a list \<Rightarrow> nat list \<Rightarrow> panic + 'a list" where
  "index_all xs [] = Inr []"
| "index_all xs (i # is) =
     (case index xs i of
        Inl p \<Rightarrow> Inl p
      | Inr x \<Rightarrow> (case index_all xs is of Inl p \<Rightarrow> Inl p | Inr ys \<Rightarrow> Inr (x # ys)))"

text \<open>\<open>func ipToString(b []byte) string\<close>.\<close>

definition ipToString :: "byte list \<Rightarrow> panic + string" where
  "ipToString b =
     (case index_chain b [(0, 0), (1, 0), (2, 0), (3, 0), (4, 0), (5, 0), (6, 0), (7, 0),
                          (8, 0), (9, 0), (10, 0xff), (11, 0xff)] of
        Inl p \<Rightarrow> Inl p
      | Inr isV4 \<Rightarrow>
          if isV4
          then (case index_all b [12, 13, 14, 15] of
                  Inr [b12, b13, b14, b15] \<Rightarrow> Inr (IP_String (net_IPv4 b12 b13 b14 b15))
                | _ \<Rightarrow> Inl IndexOutOfRange)
          else Inr (IP_String b))"




definition protocol_name :: "byte \<Rightarrow> string" where
  "protocol_name p = (if p = 1 then ''udp'' else ''tcp'')"

text \<open>\<open>func ParseConnectEvent\<close>: the conversion \<open>int(e.SrcPort)\<close> is \<open>uint\<close>.\<close>

definition ParseConnectEvent ::
  "ConnectEvent \<Rightarrow> panic + (string \<times> string \<times> int \<times> int \<times> string)" where
  "ParseConnectEvent e =
     (case ipToString (SrcAddr e) of
        Inl p \<Rightarrow> Inl p
      | Inr srcIP \<Rightarrow>
          (case ipToString (DstAddr e) of
             Inl p \<Rightarrow> Inl p
           | Inr dstIP \<Rightarrow>
               Inr (srcIP, dstIP, uint (SrcPort e), uint (DstPort e),
                    protocol_name (cProtocol e))))"

definition ParseBindEvent :: "BindEvent \<Rightarrow> panic + (string \<times> int \<times> string)" where
  "ParseBindEvent e =
     (case ipToString (bAddress e) of
        Inl p \<Rightarrow> Inl p
      | Inr address \<Rightarrow> Inr (address, uint (bPort e), protocol_name (bProtocol e)))"

text \<open>
  How a 16-bit field of a raw record becomes the \<open>uint16\<close> of the Go struct: the
  host reads the two bytes in its own byte order.
\<close>

datatype byte_order = LittleEndian | BigEndian

fun native_uint16 :: "byte_order \<Rightarrow> byte \<Rightarrow> byte \<Rightarrow> 16 word" where
  "native_uint16 LittleEndian b0 b1 = ucast b0 OR push_bit 8 (ucast b1)"
| "native_uint16 BigEndian b0 b1 = push_bit 8 (ucast b0) OR ucast b1"

text \<open>
  The capture side, \<open>get_ip_addr\<close> in \<open>trace.c\<close>, fills the port field with
  \<open>__builtin_bswap16(sin->sin_port)\<close>, where \<open>sin_port\<close> holds the port in network
  byte order.
\<close>

definition bswap16 :: "16 word \<Rightarrow> 16 word" where
  "bswap16 x = push_bit 8 x OR drop_bit 8 x"

definition get_ip_addr_port :: "byte_order \<Rightarrow> byte \<Rightarrow> byte \<Rightarrow> 16 word" where
  "get_ip_addr_port host p0 p1 = bswap16 (native_uint16 host p0 p1)"

text \<open>Raw records for the worked examples.\<close>

definition execve_record :: "32 word \<Rightarrow> byte list \<Rightarrow> ExecveEvent" where
  "execve_record argCount args =
     \<lparr>ePID = 1234, ePPID = 1000, eUID = 1000, eGID = 1000,
      eComm = [0x6c, 0x73] @ replicate 14 0, eArgCount = argCount,
      eArgs = args @ replicate (512 - length args) 0,
      eWorkingDir = [0x2f, 0x74, 0x6d, 0x70] @ replicate 252 0\<rparr>"

definition connect_record :: "byte list \<Rightarrow> 16 word \<Rightarrow> ConnectEvent" where
  "connect_record dstAddr dstPort =
     \<lparr>cPID = 1234, cUID = 1000, cGID = 1000, cComm = [0x6c, 0x73] @ replicate 14 0,
      SrcAddr = v4InV6Prefix @ [10, 0, 0, 5], SrcPort = 54321,
      DstAddr = dstAddr, DstPort = dstPort, cProtocol = 0\<rparr>"

section \<open>Package audit: the store\<close>

text \<open>
  \<open>type Auditor struct\<close>. The mutex is not a field of the sequential model. The field
  \<open>spawned\<close> is the state outside the struct that \<open>log\<close> changes: the goroutines it
  has started that have not run yet, each with the event value it received as its
  argument.
\<close>

record Auditor =
  events :: "AuditEvent list"
  logger :: "Logger option"
  maxSize :: int
  spawned :: "AuditEvent list"

definition NewAuditor :: "Logger option \<Rightarrow> int \<Rightarrow> Auditor" where
  "NewAuditor lg m =
     \<lparr>events = [], logger = lg, maxSize = (if m \<le> 0 then 10000 else m), spawned = []\<rparr>"

text \<open>
  \<open>func (a *Auditor) log(event AuditEvent)\<close>. The slice expression \<open>a.events[1:]\<close>
  panics on a slice of length 0.
\<close>

definition log :: "AuditEvent \<Rightarrow> Auditor \<Rightarrow> panic + Auditor" where
  "log event a =
     (let kept = (if int (length (events a)) \<ge> maxSize a
                  then (case events a of [] \<Rightarrow> Inl SliceBoundsOutOfRange | _ # rest \<Rightarrow> Inr rest)
                  else Inr (events a))
      in case kept of
           Inl p \<Rightarrow> Inl p
         | Inr evs \<Rightarrow>
             Inr (a\<lparr>events := evs @ [event],
                    spawned := (if logger a \<noteq> None then spawned a @ [event] else spawned a)\<rparr>))"

definition LogCommand ::
  "Time \<Rightarrow> int \<Rightarrow> int \<Rightarrow> int \<Rightarrow> int \<Rightarrow> string \<Rightarrow> string \<Rightarrow> string list \<Rightarrow> string
     \<Rightarrow> Auditor \<Rightarrow> panic + Auditor" where
  "LogCommand now pid ppid uid gid username command args workingDir a =
     log \<lparr>Timestamp = now, Type = EventCommand, PID = pid, PPID = ppid, UID = uid, GID = gid,
          Username = username, Command = command, Args = args, ExitCode = 0,
          WorkingDir = workingDir, Details = DetailsNil\<rparr> a"

definition LogPortOpen ::
  "Time \<Rightarrow> int \<Rightarrow> int \<Rightarrow> int \<Rightarrow> string \<Rightarrow> string \<Rightarrow> int \<Rightarrow> string
     \<Rightarrow> Auditor \<Rightarrow> panic + Auditor" where
  "LogPortOpen now pid uid gid username protocol port address a =
     log \<lparr>Timestamp = now, Type = EventPortOpen, PID = pid, PPID = 0, UID = uid, GID = gid,
          Username = username, Command = [], Args = [], ExitCode = 0, WorkingDir = [],
          Details = DetailsPort \<lparr>pdProtocol = protocol, pdPort = port, pdAddress = address\<rparr>\<rparr> a"

definition LogNetwork ::
  "Time \<Rightarrow> int \<Rightarrow> int \<Rightarrow> int \<Rightarrow> string \<Rightarrow> string \<Rightarrow> string \<Rightarrow> int \<Rightarrow> string \<Rightarrow> int
     \<Rightarrow> Auditor \<Rightarrow> panic + Auditor" where
  "LogNetwork now pid uid gid username protocol srcIP srcPort dstIP dstPort a =
     log \<lparr>Timestamp = now, Type = EventNetwork, PID = pid, PPID = 0, UID = uid, GID = gid,
          Username = username, Command = [], Args = [], ExitCode = 0, WorkingDir = [],
          Details = DetailsNetwork \<lparr>ndProtocol = protocol, ndSrcIP = srcIP, ndSrcPort = srcPort,
                                    ndDstIP = dstIP, ndDstPort = dstPort\<rparr>\<rparr> a"

definition LogDNS ::
  "Time \<Rightarrow> int \<Rightarrow> int \<Rightarrow> int \<Rightarrow> string \<Rightarrow> string \<Rightarrow> string \<Rightarrow> string
     \<Rightarrow> Auditor \<Rightarrow> panic + Auditor" where
  "LogDNS now pid uid gid username domain resolved dnsType a =
     log \<lparr>Timestamp = now, Type = EventDNS, PID = pid, PPID = 0, UID = uid, GID = gid,
          Username = username, Command = [], Args = [], ExitCode = 0, WorkingDir = [],
          Details = DetailsDNS \<lparr>ddDomain = domain, ddResolved = resolved, ddType = dnsType\<rparr>\<rparr> a"

text \<open>
  The condition of the loop of \<open>LogCommandExit\<close> on one slot of the window.
\<close>

definition exit_pending :: "int \<Rightarrow> AuditEvent \<Rightarrow> bool" where
  "exit_pending pid e \<longleftrightarrow> Type e = EventCommand \<and> PID e = pid \<and> ExitCode e = 0"

text \<open>
  The loop \<open>for i := len(a.events) - 1; i >= 0; i--\<close>: the second argument is
  \<open>i + 1\<close>, so that 0 is the exit of the loop.
\<close>

fun LogCommandExit_loop :: "int \<Rightarrow> int \<Rightarrow> AuditEvent list \<Rightarrow> nat \<Rightarrow> AuditEvent list" where
  "LogCommandExit_loop pid exitCode evs 0 = evs"
| "LogCommandExit_loop pid exitCode evs (Suc i) =
     (if exit_pending pid (evs ! i)
      then evs[i := (evs ! i)\<lparr>ExitCode := exitCode\<rparr>]
      else LogCommandExit_loop pid exitCode evs i)"

definition LogCommandExit :: "int \<Rightarrow> int \<Rightarrow> Auditor \<Rightarrow> Auditor" where
  "LogCommandExit pid exitCode a =
     a\<lparr>events := LogCommandExit_loop pid exitCode (events a) (length (events a))\<rparr>"

text \<open>
  The window as the specification sees it. A slot is an event as it was appended
  together with the exit code correlated to it since, if any; the exit code of a slot is
  absent while there is none. The store keeps of each slot the event with the correlated
  code written into \<open>ExitCode\<close>.
\<close>

type_synonym slot = "AuditEvent \<times> int option"

definition stored :: "slot \<Rightarrow> AuditEvent" where
  "stored p = (case snd p of None \<Rightarrow> fst p | Some n \<Rightarrow> (fst p)\<lparr>ExitCode := n\<rparr>)"

text \<open>A Command event of the pid whose exit code is still absent.\<close>

definition exit_absent :: "int \<Rightarrow> slot \<Rightarrow> bool" where
  "exit_absent pid p \<longleftrightarrow> Type (fst p) = EventCommand \<and> PID (fst p) = pid \<and> snd p = None"

text \<open>
  The windows the amended claim speaks of: every event was appended without an exit
  code, as the four \<open>Log\<close> methods append it, and no correlated code is 0.
\<close>

definition slots_ok :: "slot list \<Rightarrow> bool" where
  "slots_ok w \<longleftrightarrow> list_all (\<lambda>p. ExitCode (fst p) = 0 \<and> snd p \<noteq> Some 0) w"

definition GetEvents :: "Auditor \<Rightarrow> AuditEvent list" where
  "GetEvents a = events a"

definition GetEventsByPID :: "int \<Rightarrow> Auditor \<Rightarrow> AuditEvent list" where
  "GetEventsByPID pid a = filter (\<lambda>e. PID e = pid) (events a)"

text \<open>\<open>func (a *Auditor) Close()\<close>.\<close>

definition Close :: "Auditor \<Rightarrow> OS \<Rightarrow> error option \<times> Auditor \<times> OS" where
  "Close a os =
     (case logger a of
        None \<Rightarrow> (None, a, os)
      | Some l \<Rightarrow> (case Logger_Close l os of
                     (err, l', os') \<Rightarrow> (err, a\<lparr>logger := Some l'\<rparr>, os')))"

text \<open>
  One goroutine started by \<open>log\<close> runs to its end: the \<open>k\<close>-th of those waiting, in
  whatever order the scheduler picks. It calls \<open>a.logger.Log(e)\<close> on its own event
  value and reports an error on standard error.
\<close>

definition run_spawned ::
  "(json \<Rightarrow> string) \<Rightarrow> Time \<Rightarrow> io \<Rightarrow> nat \<Rightarrow> Auditor \<Rightarrow> OS \<Rightarrow> panic + (Auditor \<times> OS)" where
  "run_spawned render now env k a os =
     (if k < length (spawned a)
      then (case logger a of
              None \<Rightarrow> Inl NilDereference
            | Some l \<Rightarrow>
                (case Logger_Log render now env (spawned a ! k) l os of
                   (err, l', os') \<Rightarrow>
                     Inr (a\<lparr>logger := Some l',
                            spawned := take k (spawned a) @ drop (Suc k) (spawned a)\<rparr>,
                          (case err of None \<Rightarrow> os'
                           | Some x \<Rightarrow> os'\<lparr>stderr := stderr os' @ [x]\<rparr>))))
      else Inr (a, os))"

text \<open>The four public operations that append, as values, and a run of them in order.\<close>

datatype call =
    CallLogCommand Time int int int int string string "string list" string
  | CallLogPortOpen Time int int int string string int string
  | CallLogNetwork Time int int int string string string int string int
  | CallLogDNS Time int int int string string string string

fun do_call :: "call \<Rightarrow> Auditor \<Rightarrow> panic + Auditor" where
  "do_call (CallLogCommand now pid ppid uid gid u c as wd) a =
     LogCommand now pid ppid uid gid u c as wd a"
| "do_call (CallLogPortOpen now pid uid gid u pr po ad) a =
     LogPortOpen now pid uid gid u pr po ad a"
| "do_call (CallLogNetwork now pid uid gid u pr si sp di dp) a =
     LogNetwork now pid uid gid u pr si sp di dp a"
| "do_call (CallLogDNS now pid uid gid u d r t) a =
     LogDNS now pid uid gid u d r t a"

fun do_calls :: "call list \<Rightarrow> Auditor \<Rightarrow> panic + Auditor" where
  "do_calls [] a = Inr a"
| "do_calls (c # cs) a = (case do_call c a of Inl p \<Rightarrow> Inl p | Inr a' \<Rightarrow> do_calls cs a')"

text \<open>The event a call builds and hands to \<open>log\<close>.\<close>

fun call_event :: "call \<Rightarrow> AuditEvent" where
  "call_event (CallLogCommand now pid ppid uid gid u c as wd) =
     \<lparr>Timestamp = now, Type = EventCommand, PID = pid, PPID = ppid, UID = uid, GID = gid,
      Username = u, Command = c, Args = as, ExitCode = 0, WorkingDir = wd,
      Details = DetailsNil\<rparr>"
| "call_event (CallLogPortOpen now pid uid gid u pr po ad) =
     \<lparr>Timestamp = now, Type = EventPortOpen, PID = pid, PPID = 0, UID = uid, GID = gid,
      Username = u, Command = [], Args = [], ExitCode = 0, WorkingDir = [],
      Details = DetailsPort \<lparr>pdProtocol = pr, pdPort = po, pdAddress = ad\<rparr>\<rparr>"
| "call_event (CallLogNetwork now pid uid gid u pr si sp di dp) =
     \<lparr>Timestamp = now, Type = EventNetwork, PID = pid, PPID = 0, UID = uid, GID = gid,
      Username = u, Command = [], Args = [], ExitCode = 0, WorkingDir = [],
      Details = DetailsNetwork \<lparr>ndProtocol = pr, ndSrcIP = si, ndSrcPort = sp,
                                ndDstIP = di, ndDstPort = dp\<rparr>\<rparr>"
| "call_event (CallLogDNS now pid uid gid u d r t) =
     \<lparr>Timestamp = now, Type = EventDNS, PID = pid, PPID = 0, UID = uid, GID = gid,
      Username = u, Command = [], Args = [], ExitCode = 0, WorkingDir = [],
      Details = DetailsDNS \<lparr>ddDomain = d, ddResolved = r, ddType = t\<rparr>\<rparr>"

text \<open>A fixed clock reading and command events for the worked examples.\<close>

definition noon :: Time where
  "noon = \<lparr>tYear = 2024, tMonth = 1, tDay = 1, tHour = 12, tMinute = 0, tSecond = 0\<rparr>"

definition command_event :: "int \<Rightarrow> string \<Rightarrow> int \<Rightarrow> AuditEvent" where
  "command_event pid command exitCode =
     \<lparr>Timestamp = noon, Type = EventCommand, PID = pid, PPID = 1, UID = 1000, GID = 1000,
      Username = ''user'', Command = command, Args = [], ExitCode = exitCode,
      WorkingDir = ''/home/user'', Details = DetailsNil\<rparr>"


text \<open>
  Everything that can happen to a store and its sink, as values: an append, an exit
  correlation, a pending goroutine running, a close. A run stops at the first panic.
\<close>

datatype op =
    OpAppend call
  | OpExit int int
  | OpRun Time io nat
  | OpClose

fun do_op :: "(json \<Rightarrow> string) \<Rightarrow> op \<Rightarrow> Auditor \<times> OS \<Rightarrow> panic + (Auditor \<times> OS)" where
  "do_op render (OpAppend c) (a, os) =
     (case do_call c a of Inl p \<Rightarrow> Inl p | Inr a' \<Rightarrow> Inr (a', os))"
| "do_op render (OpExit pid exitCode) (a, os) = Inr (LogCommandExit pid exitCode a, os)"
| "do_op render (OpRun now env k) (a, os) = run_spawned render now env k a os"
| "do_op render OpClose (a, os) = (case Close a os of (err, a', os') \<Rightarrow> Inr (a', os'))"

fun do_ops :: "(json \<Rightarrow> string) \<Rightarrow> op list \<Rightarrow> Auditor \<times> OS \<Rightarrow> panic + (Auditor \<times> OS)" where
  "do_ops render [] w = Inr w"
| "do_ops render (x # xs) w =
     (case do_op render x w of Inl p \<Rightarrow> Inl p | Inr w' \<Rightarrow> do_ops render xs w')"

text \<open>The events a run appends, each as the append builds it.\<close>

fun appended_events :: "op list \<Rightarrow> AuditEvent list" where
  "appended_events [] = []"
| "appended_events (OpAppend c # xs) = call_event c # appended_events xs"
| "appended_events (x # xs) = appended_events xs"

text \<open>
  Standard output and every file of the second system are those of the first with
  lines of events of \<open>S\<close> added at the end, and nothing else.
\<close>

definition only_lines_added :: "(json \<Rightarrow> string) \<Rightarrow> AuditEvent set \<Rightarrow> OS \<Rightarrow> OS \<Rightarrow> bool" where
  "only_lines_added render S os0 os \<longleftrightarrow>
     (\<exists>es. set es \<subseteq> S \<and> stdout os = stdout os0 @ sink_lines render es) \<and>
     (\<forall>p. \<exists>es. set es \<subseteq> S \<and> content os p = content os0 p @ sink_lines render es)"

text \<open>What every store built by \<open>NewAuditor\<close> keeps true.\<close>

definition store_ok :: "Auditor \<Rightarrow> bool" where
  "store_ok a \<longleftrightarrow>
     0 < maxSize a \<and> int (length (events a)) \<le> maxSize a \<and>
     (logger a = None \<longrightarrow> spawned a = []) \<and>
     (\<forall>e \<in> set (spawned a). ExitCode e = 0)"

text \<open>The example of the README: \<open>ls -la /tmp\<close> run by pid 1234.\<close>

definition readme_event :: AuditEvent where
  "readme_event =
     \<lparr>Timestamp = noon, Type = EventCommand, PID = 1234, PPID = 1000, UID = 1000, GID = 1000,
      Username = ''user'', Command = ''ls'', Args = [''-la'', ''/tmp''], ExitCode = 0,
      WorkingDir = ''/home/user'', Details = DetailsNil\<rparr>"

text \<open>
  A renderer for the worked examples that shows which members an object has: their
  names, separated by commas.
\<close>

fun render_keys :: "json \<Rightarrow> string" where
  "render_keys (JObject ms) = join '','' (map fst ms)"
| "render_keys j = []"

text \<open>A stand-in for the renderer in the worked examples: every tree as two bytes.\<close>

definition sample_render :: "json \<Rightarrow> string" where
  "sample_render j = ''{}''"

definition empty_os :: OS where
  "empty_os = \<lparr>files = Map.empty, handles = [], stdout = [], stderr = []\<rparr>"

definition io_ok :: io where
  "io_ok = \<lparr>mkdir_fails = False, open_fails = False, write_fails = False, sync_fails = False\<rparr>"

text \<open>A file sink and a rotating sink that are open, for the worked examples.\<close>

definition sample_file_logger :: FileLogger where
  "sample_file_logger =
     \<lparr>filePath = ''/var/log/audit.log'',
      flFile = \<lparr>fName = ''/var/log/audit.log'', fClosed = False\<rparr>\<rparr>"

definition sample_file_os :: OS where
  "sample_file_os =
     \<lparr>files = [''/var/log/audit.log'' \<mapsto> []], handles = [''/var/log/audit.log''],
      stdout = [], stderr = []\<rparr>"

definition sample_rotating_logger :: RotatingLogger where
  "sample_rotating_logger =
     \<lparr>basePath = ''audit'', rlMaxSize = 1048576, currentSize = 1048575,
      currentFile = Some \<lparr>fName = ''audit.20240101-115959.log'', fClosed = False\<rparr>\<rparr>"

text \<open>A stand-in for the renderer whose text has a given number of bytes.\<close>

definition render_of_size :: "nat \<Rightarrow> json \<Rightarrow> string" where
  "render_of_size n j = replicate n (CHR ''x'')"

text \<open>
  The rotating sink as its constructor leaves it at noon with a threshold of 1 MiB, and
  the operating system with the bytes of its one file.
\<close>

definition rotating_at_noon :: RotatingLogger where
  "rotating_at_noon =
     \<lparr>basePath = ''audit'', rlMaxSize = 1048576, currentSize = 0,
      currentFile = Some \<lparr>fName = ''audit.20240101-120000.log'', fClosed = False\<rparr>\<rparr>"

definition os_at_noon :: "string \<Rightarrow> OS" where
  "os_at_noon bytes =
     \<lparr>files = [''audit.20240101-120000.log'' \<mapsto> bytes],
      handles = [''audit.20240101-120000.log''], stdout = [], stderr = []\<rparr>"

section \<open>The store under concurrent callers\<close>

text \<open>
  \<open>sync.RWMutex\<close>: held by one writer or by any number of readers. \<open>Lock\<close> waits
  until nobody holds it, \<open>RLock\<close> until no writer does.
\<close>

record RWMutex =
  writer :: bool
  readers :: nat

text \<open>
  Where a goroutine stands inside a method of the store. \<open>log\<close> takes \<open>a.mu.Lock()\<close>,
  runs its body and unlocks. \<open>LogCommandExit\<close> takes \<open>a.mu.RLock()\<close>, runs its loop
  up to the slot that passes the test, assigns the exit code to that slot and calls
  \<open>RUnlock\<close>. \<open>GetEvents\<close> takes \<open>a.mu.RLock()\<close>, copies the window and calls
  \<open>RUnlock\<close>.
\<close>

datatype thread =
    LogAtLock AuditEvent
  | LogBody AuditEvent
  | LogAtUnlock
  | ExitAtRLock int int
  | ExitScan int int
  | ExitWrite nat int
  | ExitAtRUnlock
  | GetAtRLock
  | GetCopy
  | GetAtRUnlock "AuditEvent list"
  | Returned "AuditEvent list option"
  | Crashed panic

record config =
  store :: Auditor
  mu :: RWMutex
  threads :: "thread list"

text \<open>The slot the loop of \<open>LogCommandExit\<close> stops at, if any.\<close>

fun LogCommandExit_find :: "int \<Rightarrow> AuditEvent list \<Rightarrow> nat \<Rightarrow> nat option" where
  "LogCommandExit_find pid evs 0 = None"
| "LogCommandExit_find pid evs (Suc i) =
     (if exit_pending pid (evs ! i) then Some i else LogCommandExit_find pid evs i)"

text \<open>One step of one goroutine; \<open>None\<close> when it waits for the lock or has ended.\<close>

fun thread_step :: "thread \<Rightarrow> Auditor \<Rightarrow> RWMutex \<Rightarrow> (thread \<times> Auditor \<times> RWMutex) option" where
  "thread_step (LogAtLock e) a m =
     (if \<not> writer m \<and> readers m = 0 then Some (LogBody e, a, m\<lparr>writer := True\<rparr>) else None)"
| "thread_step (LogBody e) a m =
     (case log e a of
        Inl p \<Rightarrow> Some (Crashed p, a, m\<lparr>writer := False\<rparr>)
      | Inr a' \<Rightarrow> Some (LogAtUnlock, a', m))"
| "thread_step LogAtUnlock a m = Some (Returned None, a, m\<lparr>writer := False\<rparr>)"
| "thread_step (ExitAtRLock pid exitCode) a m =
     (if \<not> writer m then Some (ExitScan pid exitCode, a, m\<lparr>readers := Suc (readers m)\<rparr>)
      else None)"
| "thread_step (ExitScan pid exitCode) a m =
     (case LogCommandExit_find pid (events a) (length (events a)) of
        None \<Rightarrow> Some (ExitAtRUnlock, a, m)
      | Some i \<Rightarrow> Some (ExitWrite i exitCode, a, m))"
| "thread_step (ExitWrite i exitCode) a m =
     (if i < length (events a)
      then Some (ExitAtRUnlock,
                 a\<lparr>events := (events a)[i := (events a ! i)\<lparr>ExitCode := exitCode\<rparr>]\<rparr>, m)
      else Some (Crashed IndexOutOfRange, a, m\<lparr>readers := readers m - 1\<rparr>))"
| "thread_step ExitAtRUnlock a m = Some (Returned None, a, m\<lparr>readers := readers m - 1\<rparr>)"
| "thread_step GetAtRLock a m =
     (if \<not> writer m then Some (GetCopy, a, m\<lparr>readers := Suc (readers m)\<rparr>) else None)"
| "thread_step GetCopy a m = Some (GetAtRUnlock (events a), a, m)"
| "thread_step (GetAtRUnlock evs) a m =
     Some (Returned (Some evs), a, m\<lparr>readers := readers m - 1\<rparr>)"
| "thread_step (Returned r) a m = None"
| "thread_step (Crashed p) a m = None"

definition step :: "nat \<Rightarrow> config \<Rightarrow> config option" where
  "step k c =
     (if k < length (threads c)
      then (case thread_step (threads c ! k) (store c) (mu c) of
              None \<Rightarrow> None
            | Some (t, a, m) \<Rightarrow> Some (c\<lparr>store := a, mu := m, threads := (threads c)[k := t]\<rparr>))
      else None)"

text \<open>A schedule names the goroutine that takes each next step.\<close>

fun run :: "nat list \<Rightarrow> config \<Rightarrow> config option" where
  "run [] c = Some c"
| "run (k # ks) c = (case step k c of None \<Rightarrow> None | Some c' \<Rightarrow> run ks c')"

text \<open>
  Two unterminated commands of pid 7 in the window, the lock free, and two goroutines
  about to call \<open>LogCommandExit(7, 1)\<close> and \<open>LogCommandExit(7, 2)\<close>.
\<close>

definition two_pending :: Auditor where
  "two_pending =
     NewAuditor None 10\<lparr>events := [command_event 7 ''ls'' 0, command_event 7 ''pwd'' 0]\<rparr>"

definition two_exits :: config where
  "two_exits =
     \<lparr>store = two_pending, mu = \<lparr>writer = False, readers = 0\<rparr>,
      threads = [ExitAtRLock 7 1, ExitAtRLock 7 2]\<rparr>"

section \<open>The bounded window\<close>

declare decimal.simps [simp del] hex.simps [simp del] ParseExecveEvent_loop.simps [simp del]

lemma do_call_log: "do_call c a = log (call_event c) a"
  by (cases c) (simp_all add: LogCommand_def LogPortOpen_def LogNetwork_def LogDNS_def)

lemma log_within_bound:
  assumes "0 < maxSize a"
  shows "log e a = Inr (a\<lparr>events := (if int (length (events a)) \<ge> maxSize a
                                       then tl (events a) else events a) @ [e],
                         spawned := (if logger a \<noteq> None then spawned a @ [e]
                                     else spawned a)\<rparr>)"
proof (cases "events a")
  case Nil
  with assms show ?thesis by (simp add: log_def)
next
  case (Cons x xs)
  then show ?thesis by (simp add: log_def)
qed

lemma window_step:
  fixes n :: nat
  assumes "0 < n" and "length evs \<le> n"
  shows "(if n \<le> length evs then tl evs else evs) @ [e]
           = drop (Suc (length evs) - n) (evs @ [e])"
proof (cases "n \<le> length evs")
  case True
  with assms have "length evs = n" by simp
  with assms(1) obtain x xs where "evs = x # xs" and "n = Suc (length xs)"
    by (cases evs) auto
  then show ?thesis by simp
next
  case False
  then show ?thesis by simp
qed




section \<open>The JSON line of an event\<close>

lemma json_member_exit_code:
  "json_member (ToJSON e) ''exit_code''
     = (if ExitCode e = 0 then None else Some (JInt (ExitCode e)))"
  by (cases "Details e") (simp_all add: ToJSON_def AuditEvent_members_def)

lemma call_event_ExitCode: "ExitCode (call_event c) = 0"
  by (cases c) simp_all

text \<open>
  C4 at the input where the code departs from it. The command of the README is logged
  and its exit is correlated with code 0: the slot is what it was before the call, and
  its JSON object has no member \<open>exit_code\<close>, where the README prints \<open>"exit_code": 0\<close>.
\<close>

theorem exit_code_zero_never_serialized:
  "LogCommand noon 1234 1000 1000 1000 ''user'' ''ls'' [''-la'', ''/tmp''] ''/home/user''
     (NewAuditor None 10) = Inr (NewAuditor None 10\<lparr>events := [readme_event]\<rparr>) \<and>
   GetEvents (LogCommandExit 1234 0 (NewAuditor None 10\<lparr>events := [readme_event]\<rparr>))
     = [readme_event] \<and>
   json_member (ToJSON readme_event) ''exit_code'' = None"
  by (simp add: LogCommand_def log_def NewAuditor_def readme_event_def GetEvents_def
      LogCommandExit_def exit_pending_def json_member_exit_code)

section \<open>Reachable stores\<close>

lemma store_ok_NewAuditor: "store_ok (NewAuditor lg m)"
  by (simp add: store_ok_def NewAuditor_def)

lemma store_ok_do_call:
  assumes "store_ok a"
  shows "\<exists>a'. do_call c a = Inr a' \<and> store_ok a' \<and>
           events a' = drop (Suc (length (events a)) - nat (maxSize a))
                            (events a @ [call_event c])"
proof -
  define n where "n = nat (maxSize a)"
  from assms have n: "0 < n" "length (events a) \<le> n" "maxSize a = int n"
    by (auto simp: store_ok_def n_def)
  define evs where "evs = drop (Suc (length (events a)) - n) (events a @ [call_event c])"
  have "(if int (length (events a)) \<ge> maxSize a then tl (events a) else events a)
          @ [call_event c] = evs"
    using window_step [OF n(1) n(2), of "call_event c"] n(3) by (simp add: evs_def)
  moreover have "0 < maxSize a" using n by simp
  ultimately have step: "do_call c a = Inr (a\<lparr>events := evs,
      spawned := (if logger a \<noteq> None then spawned a @ [call_event c] else spawned a)\<rparr>)"
    by (simp add: do_call_log log_within_bound)
  have "length evs \<le> n" using n(2) by (simp add: evs_def)
  with assms n(3) have "store_ok (a\<lparr>events := evs,
      spawned := (if logger a \<noteq> None then spawned a @ [call_event c] else spawned a)\<rparr>)"
    by (simp add: store_ok_def call_event_ExitCode)
  with step show ?thesis by (simp add: evs_def n_def)
qed

lemma length_LogCommandExit_loop: "length (LogCommandExit_loop pid n evs k) = length evs"
  by (induction k) simp_all

lemma store_ok_LogCommandExit: "store_ok a \<Longrightarrow> store_ok (LogCommandExit pid n a)"
  by (simp add: store_ok_def LogCommandExit_def length_LogCommandExit_loop)

lemma Close_fields:
  "Close a os = (err, a', os') \<Longrightarrow>
     events a' = events a \<and> maxSize a' = maxSize a \<and> spawned a' = spawned a \<and>
     (logger a' = None \<longleftrightarrow> logger a = None)"
  by (auto simp: Close_def split: option.splits prod.splits)

lemma store_ok_Close: "store_ok a \<Longrightarrow> Close a os = (err, a', os') \<Longrightarrow> store_ok a'"
  using Close_fields [of a os err a' os'] by (simp add: store_ok_def)

lemma store_ok_run_spawned:
  assumes "store_ok a"
  shows "\<exists>a' os'. run_spawned render now env k a os = Inr (a', os') \<and> store_ok a'"
proof (cases "k < length (spawned a)")
  case False
  with assms show ?thesis by (simp add: run_spawned_def)
next
  case True
  with assms obtain l where l: "logger a = Some l"
    by (cases "logger a") (auto simp: store_ok_def)
  obtain err l' os' where r: "Logger_Log render now env (spawned a ! k) l os = (err, l', os')"
    by (cases "Logger_Log render now env (spawned a ! k) l os") auto
  have "set (take k (spawned a) @ drop (Suc k) (spawned a)) \<subseteq> set (spawned a)"
    using set_take_subset set_drop_subset by fastforce
  with assms True l r show ?thesis
    by (auto simp: run_spawned_def store_ok_def)
qed

lemma store_ok_do_op:
  assumes "store_ok a"
  shows "\<exists>a' os'. do_op render x (a, os) = Inr (a', os') \<and> store_ok a'"
proof (cases x)
  case (OpAppend c)
  with store_ok_do_call [OF assms, of c] show ?thesis by auto
next
  case (OpExit pid n)
  with store_ok_LogCommandExit [OF assms] show ?thesis by simp
next
  case (OpRun now env k)
  with store_ok_run_spawned [OF assms] show ?thesis by simp
next
  case OpClose
  obtain err a' os' where c: "Close a os = (err, a', os')"
    by (cases "Close a os") auto
  with store_ok_Close [OF assms c] OpClose show ?thesis by simp
qed

lemma store_ok_do_ops:
  assumes "store_ok a"
  shows "\<exists>a' os'. do_ops render xs (a, os) = Inr (a', os') \<and> store_ok a'"
  using assms
proof (induction xs arbitrary: a os)
  case Nil
  then show ?case by simp
next
  case (Cons x xs)
  from store_ok_do_op [OF Cons.prems, of render x os] obtain a1 os1 where
    s: "do_op render x (a, os) = Inr (a1, os1)" and ok: "store_ok a1" by blast
  from Cons.IH [OF ok, of os1] s show ?case by simp
qed

text \<open>Every sink uses the event it is given only through its JSON value tree.\<close>

lemma Logger_Log_only_ToJSON:
  "ToJSON e = ToJSON e' \<Longrightarrow>
     Logger_Log render now env e l os = Logger_Log render now env e' l os"
  by (cases l)
     (simp_all add: FileLogger_Log_def RotatingLogger_Log_def StdoutLogger_Log_def)

lemma sink_lines_simps [simp]:
  "sink_lines render [] = []"
  "sink_lines render [e] = sink_line render e"
  "sink_lines render (es @ es') = sink_lines render es @ sink_lines render es'"
  by (simp_all add: sink_lines_def)

lemma only_lines_added_refl: "only_lines_added render S os os"
  unfolding only_lines_added_def
  by (intro conjI allI exI [of _ "[]"]) simp_all

lemma only_lines_added_mono:
  "only_lines_added render S os0 os \<Longrightarrow> S \<subseteq> T \<Longrightarrow> only_lines_added render T os0 os"
  unfolding only_lines_added_def by (meson subset_trans)

lemma only_lines_added_trans:
  assumes "only_lines_added render S os0 os1" and "only_lines_added render S os1 os2"
  shows "only_lines_added render S os0 os2"
  unfolding only_lines_added_def
proof (intro conjI allI)
  from assms obtain es1 es2 where
    "set es1 \<subseteq> S" "stdout os1 = stdout os0 @ sink_lines render es1"
    "set es2 \<subseteq> S" "stdout os2 = stdout os1 @ sink_lines render es2"
    unfolding only_lines_added_def by blast
  then have "set (es1 @ es2) \<subseteq> S \<and> stdout os2 = stdout os0 @ sink_lines render (es1 @ es2)"
    by simp
  then show "\<exists>es. set es \<subseteq> S \<and> stdout os2 = stdout os0 @ sink_lines render es" by blast
next
  fix p
  from assms obtain es1 es2 where
    "set es1 \<subseteq> S" "content os1 p = content os0 p @ sink_lines render es1"
    "set es2 \<subseteq> S" "content os2 p = content os1 p @ sink_lines render es2"
    unfolding only_lines_added_def by blast
  then have "set (es1 @ es2) \<subseteq> S \<and> content os2 p = content os0 p @ sink_lines render (es1 @ es2)"
    by simp
  then show "\<exists>es. set es \<subseteq> S \<and> content os2 p = content os0 p @ sink_lines render es" by blast
qed

lemma only_lines_added_same:
  "content os' = content os \<Longrightarrow> stdout os' = stdout os \<Longrightarrow> only_lines_added render S os os'"
  unfolding only_lines_added_def
  by (intro conjI allI exI [of _ "[]"]) simp_all

lemma only_lines_added_one:
  assumes "e \<in> S"
    and "stdout os' = stdout os \<or> stdout os' = stdout os @ sink_line render e"
    and "content os' = content os \<or>
         (\<exists>p. content os' = (content os)(p := content os p @ sink_line render e))"
  shows "only_lines_added render S os os'"
  unfolding only_lines_added_def
proof (intro conjI allI)
  from assms(2) show "\<exists>es. set es \<subseteq> S \<and> stdout os' = stdout os @ sink_lines render es"
  proof
    assume "stdout os' = stdout os"
    then show ?thesis by (intro exI [of _ "[]"]) simp
  next
    assume "stdout os' = stdout os @ sink_line render e"
    with assms(1) show ?thesis by (intro exI [of _ "[e]"]) simp
  qed
next
  fix q
  from assms(3) show "\<exists>es. set es \<subseteq> S \<and> content os' q = content os q @ sink_lines render es"
  proof
    assume "content os' = content os"
    then show ?thesis by (intro exI [of _ "[]"]) simp
  next
    assume "\<exists>p. content os' = (content os)(p := content os p @ sink_line render e)"
    then obtain p where p: "content os' = (content os)(p := content os p @ sink_line render e)"
      by blast
    show ?thesis
    proof (cases "q = p")
      case True
      with p assms(1) show ?thesis by (intro exI [of _ "[e]"]) simp
    next
      case False
      with p show ?thesis by (intro exI [of _ "[]"]) simp
    qed
  qed
qed

lemma content_OpenFile:
  "OpenFile env path os = Inr (f, os') \<Longrightarrow> content os' = content os \<and> stdout os' = stdout os"
  by (auto simp: OpenFile_def content_def fun_eq_iff split: if_splits)

lemma content_File_Close:
  "File_Close f os = (err, f', os') \<Longrightarrow> content os' = content os \<and> stdout os' = stdout os"
  by (auto simp: File_Close_def content_def fun_eq_iff split: if_splits)

lemma content_File_Write:
  "File_Write env f bs os = (err, os') \<Longrightarrow>
     stdout os' = stdout os \<and>
     (content os' = content os \<or> content os' = (content os)(fName f := content os (fName f) @ bs))"
  by (auto simp: File_Write_def content_def fun_eq_iff split: if_splits)

lemma content_rotate:
  assumes "rotate now env rl os = (err, rl', os')"
  shows "content os' = content os \<and> stdout os' = stdout os"
proof -
  obtain rl1 os1 where c: "(case currentFile rl of
               None \<Rightarrow> (rl, os)
             | Some f \<Rightarrow> (case File_Close f os of
                            (err, f', os') \<Rightarrow> (rl\<lparr>currentFile := Some f'\<rparr>, os'))) = (rl1, os1)"
    by (cases "(case currentFile rl of
               None \<Rightarrow> (rl, os)
             | Some f \<Rightarrow> (case File_Close f os of
                            (err, f', os') \<Rightarrow> (rl\<lparr>currentFile := Some f'\<rparr>, os')))") auto
  have one: "content os1 = content os \<and> stdout os1 = stdout os"
  proof (cases "currentFile rl")
    case None
    with c show ?thesis by simp
  next
    case (Some f)
    obtain e f' o' where cl: "File_Close f os = (e, f', o')"
      by (cases "File_Close f os") auto
    with c Some content_File_Close [OF cl] show ?thesis by simp
  qed
  show ?thesis
  proof (cases "OpenFile env (basePath rl @ ''.'' @ format_timestamp now @ ''.log'') os1")
    case (Inl e)
    with assms c one show ?thesis by (simp add: rotate_def Let_def)
  next
    case (Inr r)
    obtain f os2 where r: "r = (f, os2)" by (cases r) auto
    with Inr content_OpenFile [of env _ os1 f os2] assms c one show ?thesis
      by (simp add: rotate_def Let_def)
  qed
qed


lemma content_FileLogger_Log:
  assumes "FileLogger_Log render env e l os = (err, os')"
  shows "stdout os' = stdout os \<and>
     (content os' = content os \<or>
      (\<exists>p. content os' = (content os)(p := content os p @ sink_line render e)))"
proof -
  obtain werr o1 where w: "File_Write env (flFile l) (render (ToJSON e) @ newline) os = (werr, o1)"
    by (cases "File_Write env (flFile l) (render (ToJSON e) @ newline) os") auto
  with assms have "os' = o1"
    by (cases werr) (simp_all add: FileLogger_Log_def Let_def)
  with content_File_Write [OF w] show ?thesis by (auto simp: sink_line_def)
qed

lemma content_RotatingLogger_Log:
  assumes "RotatingLogger_Log render now env e rl os = (err, rl', os')"
  shows "stdout os' = stdout os \<and>
     (content os' = content os \<or>
      (\<exists>p. content os' = (content os)(p := content os p @ sink_line render e)))"
proof -
  obtain rerr rl1 os1 where r:
    "(if wrap64 (currentSize rl + int (length (render (ToJSON e)))) > rlMaxSize rl
      then rotate now env rl os else (None, rl, os)) = (rerr, rl1, os1)"
    by (cases "(if wrap64 (currentSize rl + int (length (render (ToJSON e)))) > rlMaxSize rl
      then rotate now env rl os else (None, rl, os))") auto
  have one: "content os1 = content os \<and> stdout os1 = stdout os"
  proof (cases "wrap64 (currentSize rl + int (length (render (ToJSON e)))) > rlMaxSize rl")
    case True
    with r content_rotate [of now env rl os rerr rl1 os1] show ?thesis by simp
  next
    case False
    with r show ?thesis by simp
  qed
  show ?thesis
  proof (cases "rerr \<noteq> None \<or> currentFile rl1 = None")
    case True
    with assms r have "os' = os1"
      by (auto simp: RotatingLogger_Log_def Let_def split: option.splits if_splits)
    with one show ?thesis by simp
  next
    case False
    then obtain f where f: "currentFile rl1 = Some f" and ok: "rerr = None" by auto
    obtain werr o2 where w: "File_Write env f (render (ToJSON e) @ newline) os1 = (werr, o2)"
      by (cases "File_Write env f (render (ToJSON e) @ newline) os1") auto
    with assms r f ok have "os' = o2"
      by (cases werr) (simp_all add: RotatingLogger_Log_def Let_def)
    with content_File_Write [OF w] one show ?thesis by (auto simp: sink_line_def)
  qed
qed

lemma only_lines_added_Logger_Log:
  assumes "Logger_Log render now env e l os = (err, l', os')" and "e \<in> S"
  shows "only_lines_added render S os os'"
proof (cases l)
  case (LoggerFile fl)
  obtain er o1 where x: "FileLogger_Log render env e fl os = (er, o1)"
    by (cases "FileLogger_Log render env e fl os") auto
  with assms(1) LoggerFile have "os' = o1" by simp
  with content_FileLogger_Log [OF x] assms(2) show ?thesis
    by (intro only_lines_added_one [of e]) auto
next
  case (LoggerRotating rl)
  obtain er rl1 o1 where x: "RotatingLogger_Log render now env e rl os = (er, rl1, o1)"
    by (cases "RotatingLogger_Log render now env e rl os") auto
  with assms(1) LoggerRotating have "os' = o1" by simp
  with content_RotatingLogger_Log [OF x] assms(2) show ?thesis
    by (intro only_lines_added_one [of e]) auto
next
  case LoggerStdout
  with assms(1) have "os' = os\<lparr>stdout := stdout os @ sink_line render e\<rparr>"
    by (simp add: StdoutLogger_Log_def sink_line_def)
  then have "stdout os' = stdout os @ sink_line render e" and "content os' = content os"
    by (simp_all add: content_def fun_eq_iff)
  with assms(2) show ?thesis by (intro only_lines_added_one [of e]) auto
qed

lemma content_Logger_Close:
  "Logger_Close l os = (err, l', os') \<Longrightarrow> content os' = content os \<and> stdout os' = stdout os"
proof (cases l)
  case (LoggerFile fl)
  assume a: "Logger_Close l os = (err, l', os')"
  obtain e f o1 where c: "File_Close (flFile fl) os = (e, f, o1)"
    by (cases "File_Close (flFile fl) os") auto
  with a LoggerFile content_File_Close [OF c] show ?thesis
    by (auto simp: FileLogger_Close_def)
next
  case (LoggerRotating rl)
  assume a: "Logger_Close l os = (err, l', os')"
  show ?thesis
  proof (cases "currentFile rl")
    case None
    with a LoggerRotating show ?thesis by (auto simp: RotatingLogger_Close_def)
  next
    case (Some f0)
    obtain e f o1 where c: "File_Close f0 os = (e, f, o1)"
      by (cases "File_Close f0 os") auto
    with a LoggerRotating Some content_File_Close [OF c] show ?thesis
      by (auto simp: RotatingLogger_Close_def)
  qed
next
  case LoggerStdout
  assume "Logger_Close l os = (err, l', os')"
  with LoggerStdout show ?thesis by auto
qed

lemma only_lines_added_do_op:
  assumes "store_ok a" and "set (spawned a) \<subseteq> S"
    and "do_op render x (a, os) = Inr (a', os')"
  shows "set (spawned a') \<subseteq> S \<union> set (appended_events [x]) \<and>
         only_lines_added render (S \<union> set (appended_events [x])) os os'"
proof (cases x)
  case (OpAppend c)
  from assms(1) have "0 < maxSize a" by (simp add: store_ok_def)
  from log_within_bound [OF this, of "call_event c"] assms(3) OpAppend
  have "set (spawned a') \<subseteq> set (spawned a) \<union> {call_event c}" and "os' = os"
    by (auto simp: do_call_log split: if_splits)
  with assms(2) OpAppend show ?thesis
    by (auto simp: only_lines_added_refl)
next
  case (OpExit pid n)
  with assms show ?thesis
    by (auto simp: LogCommandExit_def only_lines_added_refl)
next
  case (OpRun now env k)
  show ?thesis
  proof (cases "k < length (spawned a)")
    case False
    with assms OpRun show ?thesis
      by (auto simp: run_spawned_def only_lines_added_refl)
  next
    case True
    with assms(1) obtain l where l: "logger a = Some l"
      by (cases "logger a") (auto simp: store_ok_def)
    obtain err l' o1 where r: "Logger_Log render now env (spawned a ! k) l os = (err, l', o1)"
      by (cases "Logger_Log render now env (spawned a ! k) l os") auto
    from True assms(2) have mem: "spawned a ! k \<in> S" by (auto simp: subset_iff)
    from only_lines_added_Logger_Log [OF r mem] have g: "only_lines_added render S os o1" .
    have sub: "set (take k (spawned a) @ drop (Suc k) (spawned a)) \<subseteq> set (spawned a)"
      using set_take_subset set_drop_subset by fastforce
    from assms(3) OpRun True l r have a': "spawned a' = take k (spawned a) @ drop (Suc k) (spawned a)"
      and o': "os' = (case err of None \<Rightarrow> o1 | Some x \<Rightarrow> o1\<lparr>stderr := stderr o1 @ [x]\<rparr>)"
      by (auto simp: run_spawned_def)
    from o' have "content os' = content o1 \<and> stdout os' = stdout o1"
      by (cases err) (simp_all add: content_def fun_eq_iff)
    then have "only_lines_added render S o1 os'" by (intro only_lines_added_same) simp_all
    with g have "only_lines_added render S os os'" by (rule only_lines_added_trans)
    with a' sub assms(2) OpRun show ?thesis by auto
  qed
next
  case OpClose
  obtain err a1 o1 where c: "Close a os = (err, a1, o1)"
    by (cases "Close a os") auto
  with assms(3) OpClose have eq: "a' = a1" "os' = o1" by simp_all
  from c Close_fields [OF c] have sp: "spawned a1 = spawned a" by simp
  have "content o1 = content os \<and> stdout o1 = stdout os"
  proof (cases "logger a")
    case None
    with c show ?thesis by (simp add: Close_def)
  next
    case (Some l)
    obtain e l' o2 where lc: "Logger_Close l os = (e, l', o2)"
      by (cases "Logger_Close l os") auto
    with c Some content_Logger_Close [OF lc] show ?thesis by (simp add: Close_def)
  qed
  then have "only_lines_added render S os o1" by (intro only_lines_added_same) simp_all
  with eq sp assms(2) OpClose show ?thesis by simp
qed

lemma set_appended_events_Cons:
  "set (appended_events (x # xs)) = set (appended_events [x]) \<union> set (appended_events xs)"
  by (cases x) simp_all

lemma only_lines_added_do_ops:
  assumes "store_ok a" and "set (spawned a) \<subseteq> S"
    and "do_ops render xs (a, os) = Inr (a', os')"
  shows "set (spawned a') \<subseteq> S \<union> set (appended_events xs) \<and>
         only_lines_added render (S \<union> set (appended_events xs)) os os'"
  using assms
proof (induction xs arbitrary: a os S)
  case Nil
  then show ?case by (simp add: only_lines_added_refl)
next
  case (Cons x xs)
  from store_ok_do_op [OF Cons.prems(1), of render x os] obtain a1 os1 where
    s: "do_op render x (a, os) = Inr (a1, os1)" and ok: "store_ok a1" by blast
  let ?S1 = "S \<union> set (appended_events [x])"
  from only_lines_added_do_op [OF Cons.prems(1,2) s]
  have sp1: "set (spawned a1) \<subseteq> ?S1" and g1: "only_lines_added render ?S1 os os1" by simp_all
  from Cons.prems(3) s have run: "do_ops render xs (a1, os1) = Inr (a', os')" by simp
  from Cons.IH [OF ok sp1 run]
  have sp2: "set (spawned a') \<subseteq> ?S1 \<union> set (appended_events xs)"
    and g2: "only_lines_added render (?S1 \<union> set (appended_events xs)) os1 os'" by simp_all
  have eq: "?S1 \<union> set (appended_events xs) = S \<union> set (appended_events (x # xs))"
    by (simp only: set_appended_events_Cons [of x xs] Un_assoc)
  from g1 have "only_lines_added render (?S1 \<union> set (appended_events xs)) os os1"
    by (rule only_lines_added_mono) simp
  with g2 have "only_lines_added render (?S1 \<union> set (appended_events xs)) os os'"
    by (rule only_lines_added_trans [rotated])
  with sp2 show ?case by (simp only: eq)
qed

lemma appended_events_ExitCode: "e \<in> set (appended_events xs) \<Longrightarrow> ExitCode e = 0"
  by (induction xs rule: appended_events.induct) (auto simp: call_event_ExitCode)

text \<open>
  C10. Take any state the store and its sink reach from \<open>NewAuditor\<close> by appends, exit
  correlations, goroutine runs and closes. Every event an append built has no member
  \<open>exit_code\<close> in its JSON object. Each event value held by a goroutine that has not run
  yet is such an event, exactly as the append built it, and an exit correlation leaves
  these values as they are. And all that the sink has added to standard output and to
  any file is lines of such events, each the serialized event as the append built it:
  no line the sink persists has an \<open>exit_code\<close> key, whatever was backfilled in the
  store.
\<close>

theorem sink_writes_events_as_appended:
  assumes "do_ops render xs (NewAuditor lg m, os0) = Inr (a, os)"
  shows "(\<forall>e \<in> set (appended_events xs). json_member (ToJSON e) ''exit_code'' = None) \<and>
         spawned (LogCommandExit pid n a) = spawned a \<and>
         set (spawned a) \<subseteq> set (appended_events xs) \<and>
         (\<exists>es. set es \<subseteq> set (appended_events xs) \<and>
               stdout os = stdout os0 @ sink_lines render es) \<and>
         (\<forall>p. \<exists>es. set es \<subseteq> set (appended_events xs) \<and>
               content os p = content os0 p @ sink_lines render es)"
proof -
  have "set (spawned (NewAuditor lg m)) \<subseteq> {}" by (simp add: NewAuditor_def)
  from only_lines_added_do_ops [OF store_ok_NewAuditor this assms]
  have "set (spawned a) \<subseteq> set (appended_events xs)"
    and "only_lines_added render (set (appended_events xs)) os0 os" by simp_all
  moreover have "\<forall>e \<in> set (appended_events xs). json_member (ToJSON e) ''exit_code'' = None"
    by (simp add: json_member_exit_code appended_events_ExitCode)
  ultimately show ?thesis
    by (simp add: only_lines_added_def LogCommandExit_def)
qed


theorem sink_writes_events_as_appended_witness:
  "do_ops render_keys
     [OpAppend (CallLogCommand noon 1234 1000 1000 1000 ''user'' ''ls''
                  [''-la'', ''/tmp''] ''/home/user''),
      OpExit 1234 3, OpRun noon io_ok 0]
     (NewAuditor (Some LoggerStdout) 10, empty_os)
     = Inr (NewAuditor (Some LoggerStdout) 10\<lparr>events := [readme_event\<lparr>ExitCode := 3\<rparr>]\<rparr>,
            empty_os\<lparr>stdout :=
              ''timestamp,type,pid,ppid,uid,gid,username,command,args,working_dir'' @ newline\<rparr>) \<and>
   render_keys (ToJSON (readme_event\<lparr>ExitCode := 3\<rparr>))
     = ''timestamp,type,pid,ppid,uid,gid,username,command,args,exit_code,working_dir'' \<and>
   json_member (ToJSON readme_event) ''exit_code'' = None \<and>
   (\<exists>es. set es \<subseteq> {readme_event} \<and>
      ''timestamp,type,pid,ppid,uid,gid,username,command,args,working_dir'' @ newline
        = sink_lines render_keys es)"
proof -
  let ?ops = "[OpAppend (CallLogCommand noon 1234 1000 1000 1000 ''user'' ''ls''
                  [''-la'', ''/tmp''] ''/home/user''),
      OpExit 1234 3, OpRun noon io_ok 0]"
  have run: "do_ops render_keys ?ops (NewAuditor (Some LoggerStdout) 10, empty_os)
     = Inr (NewAuditor (Some LoggerStdout) 10\<lparr>events := [readme_event\<lparr>ExitCode := 3\<rparr>]\<rparr>,
            empty_os\<lparr>stdout :=
              ''timestamp,type,pid,ppid,uid,gid,username,command,args,working_dir'' @ newline\<rparr>)"
    by (simp add: LogCommand_def log_def NewAuditor_def readme_event_def LogCommandExit_def
        exit_pending_def run_spawned_def StdoutLogger_Log_def ToJSON_def AuditEvent_members_def
        empty_os_def)
  have app: "set (appended_events ?ops) = {readme_event}"
    by (simp add: readme_event_def)
  have keys: "render_keys (ToJSON (readme_event\<lparr>ExitCode := 3\<rparr>))
     = ''timestamp,type,pid,ppid,uid,gid,username,command,args,exit_code,working_dir''"
    by (simp add: readme_event_def ToJSON_def AuditEvent_members_def)
  note T = sink_writes_events_as_appended [OF run, of 1234 3, unfolded app]
  from T [THEN conjunct1]
  have none: "json_member (ToJSON readme_event) ''exit_code'' = None" by simp
  from T [THEN conjunct2, THEN conjunct2, THEN conjunct2, THEN conjunct1]
  have out: "\<exists>es. set es \<subseteq> {readme_event} \<and>
      ''timestamp,type,pid,ppid,uid,gid,username,command,args,working_dir'' @ newline
        = sink_lines render_keys es"
    by (simp add: empty_os_def)
  from run keys none out show ?thesis by (intro conjI)
qed

section \<open>Exit-code correlation\<close>

lemma LogCommandExit_loop_none:
  "\<forall>j<k. \<not> exit_pending pid (evs ! j) \<Longrightarrow> LogCommandExit_loop pid n evs k = evs"
  by (induction k) simp_all

lemma LogCommandExit_loop_found:
  assumes "i < k" and "exit_pending pid (evs ! i)"
    and "\<forall>j. i < j \<and> j < k \<longrightarrow> \<not> exit_pending pid (evs ! j)"
  shows "LogCommandExit_loop pid n evs k = evs[i := (evs ! i)\<lparr>ExitCode := n\<rparr>]"
  using assms
proof (induction k)
  case 0
  then show ?case by simp
next
  case (Suc k)
  show ?case
  proof (cases "i = k")
    case True
    with Suc.prems show ?thesis by simp
  next
    case False
    with Suc.prems have "i < k" and "\<not> exit_pending pid (evs ! k)" by auto
    with Suc show ?thesis by simp
  qed
qed

lemma exit_pending_stored:
  "ExitCode (fst p) = 0 \<Longrightarrow> snd p \<noteq> Some 0 \<Longrightarrow> exit_pending pid (stored p) = exit_absent pid p"
  by (cases "snd p") (auto simp: exit_pending_def exit_absent_def stored_def)

lemma exit_pending_stored_nth:
  "slots_ok w \<Longrightarrow> i < length w \<Longrightarrow>
     exit_pending pid (stored (w ! i)) = exit_absent pid (w ! i)"
  by (simp add: slots_ok_def list_all_length exit_pending_stored)

lemma stored_backfill:
  "snd p = None \<Longrightarrow> stored (fst p, Some n) = (stored p)\<lparr>ExitCode := n\<rparr>"
  by (simp add: stored_def)

lemma slots_ok_backfill:
  "slots_ok w \<Longrightarrow> n \<noteq> 0 \<Longrightarrow> i < length w \<Longrightarrow> slots_ok (w[i := (fst (w ! i), Some n)])"
  by (auto simp: slots_ok_def list_all_length nth_list_update)

lemma LogCommandExit_none_absent:
  assumes "slots_ok w" and "events a = map stored w"
    and "\<forall>i<length w. \<not> exit_absent pid (w ! i)"
  shows "LogCommandExit pid n a = a"
proof -
  have "\<forall>j<length (events a). \<not> exit_pending pid (events a ! j)"
    using assms by (simp add: exit_pending_stored_nth)
  then show ?thesis by (simp add: LogCommandExit_def LogCommandExit_loop_none)
qed

lemma LogCommandExit_most_recent_slot:
  assumes "slots_ok w" and "events a = map stored w"
    and "i < length w" and "exit_absent pid (w ! i)"
    and "\<forall>j. i < j \<and> j < length w \<longrightarrow> \<not> exit_absent pid (w ! j)"
  shows "LogCommandExit pid n a = a\<lparr>events := map stored (w[i := (fst (w ! i), Some n)])\<rparr>"
proof -
  have p: "exit_pending pid (events a ! i)"
    using assms by (simp add: exit_pending_stored_nth)
  have q: "\<forall>j. i < j \<and> j < length (events a) \<longrightarrow> \<not> exit_pending pid (events a ! j)"
    using assms by (simp add: exit_pending_stored_nth)
  have "LogCommandExit_loop pid n (events a) (length (events a))
      = (events a)[i := (events a ! i)\<lparr>ExitCode := n\<rparr>]"
    using assms(2,3) p q by (intro LogCommandExit_loop_found) simp_all
  moreover have "(events a)[i := (events a ! i)\<lparr>ExitCode := n\<rparr>]
      = map stored (w[i := (fst (w ! i), Some n)])"
    using assms(2,3,4) by (simp add: map_update stored_backfill exit_absent_def)
  ultimately show ?thesis by (simp add: LogCommandExit_def)
qed

lemma LogCommandExit_find_None:
  "LogCommandExit_find pid evs k = None \<Longrightarrow> \<forall>j<k. \<not> exit_pending pid (evs ! j)"
  by (induction k) (auto simp: less_Suc_eq split: if_splits)

lemma LogCommandExit_find_Some:
  "LogCommandExit_find pid evs k = Some i \<Longrightarrow>
     i < k \<and> exit_pending pid (evs ! i) \<and> (\<forall>j. i < j \<and> j < k \<longrightarrow> \<not> exit_pending pid (evs ! j))"
  by (induction k) (auto simp: less_Suc_eq split: if_splits)

lemma slots_after_LogCommandExit:
  assumes "slots_ok w" and "events a = map stored w" and "n \<noteq> 0"
  shows "\<exists>w'. slots_ok w' \<and> events (LogCommandExit pid n a) = map stored w'"
proof (cases "LogCommandExit_find pid (events a) (length (events a))")
  case None
  from LogCommandExit_find_None [OF None] have "LogCommandExit pid n a = a"
    by (simp add: LogCommandExit_def LogCommandExit_loop_none)
  with assms show ?thesis by auto
next
  case (Some i)
  from LogCommandExit_find_Some [OF Some] assms(1,2) have
    i: "i < length w" and p: "exit_absent pid (w ! i)"
    and q: "\<forall>j. i < j \<and> j < length w \<longrightarrow> \<not> exit_absent pid (w ! j)"
    by (auto simp: exit_pending_stored_nth)
  from LogCommandExit_most_recent_slot [OF assms(1,2) i p q, of n]
    slots_ok_backfill [OF assms(1,3) i]
  show ?thesis by auto
qed

lemma slots_after_do_call:
  assumes "store_ok a" and "slots_ok w" and "events a = map stored w"
    and "do_call c a = Inr a'"
  shows "\<exists>w'. slots_ok w' \<and> events a' = map stored w'"
proof -
  let ?w = "drop (Suc (length (events a)) - nat (maxSize a)) (w @ [(call_event c, None)])"
  have m: "events a @ [call_event c] = map stored (w @ [(call_event c, None)])"
    using assms(3) by (simp add: stored_def)
  from store_ok_do_call [OF assms(1), of c] assms(4)
  have "events a' = drop (Suc (length (events a)) - nat (maxSize a)) (events a @ [call_event c])"
    by auto
  then have "events a' = map stored ?w"
    by (simp only: m drop_map)
  moreover have "slots_ok (w @ [(call_event c, None)])"
    using assms(2) by (simp add: slots_ok_def call_event_ExitCode)
  then have "slots_ok ?w"
    unfolding slots_ok_def list_all_iff using in_set_dropD by fast
  ultimately show ?thesis by blast
qed

lemma events_run_spawned:
  "run_spawned render now env k a os = Inr (a', os') \<Longrightarrow> events a' = events a"
  by (auto simp: run_spawned_def split: if_splits option.splits prod.splits)

lemma slots_after_do_ops:
  assumes "store_ok a" and "slots_ok w" and "events a = map stored w"
    and "\<forall>pid n. OpExit pid n \<in> set xs \<longrightarrow> n \<noteq> 0"
    and "do_ops render xs (a, os) = Inr (a', os')"
  shows "\<exists>w'. slots_ok w' \<and> events a' = map stored w'"
  using assms
proof (induction xs arbitrary: a os w)
  case Nil
  then show ?case by auto
next
  case (Cons x xs)
  from store_ok_do_op [OF Cons.prems(1), of render x os] obtain a1 os1 where
    s: "do_op render x (a, os) = Inr (a1, os1)" and ok: "store_ok a1" by blast
  have "\<exists>w1. slots_ok w1 \<and> events a1 = map stored w1"
  proof (cases x)
    case (OpAppend c)
    with s have "do_call c a = Inr a1" by (auto split: sum.splits)
    with Cons.prems(1,2,3) show ?thesis by (rule slots_after_do_call)
  next
    case (OpExit pid n)
    with Cons.prems(4) have "n \<noteq> 0" by auto
    with OpExit s slots_after_LogCommandExit [OF Cons.prems(2,3), of n pid]
    show ?thesis by auto
  next
    case (OpRun now env k)
    with s events_run_spawned have "events a1 = events a" by auto
    with Cons.prems(2,3) show ?thesis by auto
  next
    case OpClose
    with s Close_fields [of a os] have "events a1 = events a"
      by (auto split: prod.splits)
    with Cons.prems(2,3) show ?thesis by auto
  qed
  then obtain w1 where w1: "slots_ok w1" "events a1 = map stored w1" by blast
  from Cons.prems(4) have nz: "\<forall>pid n. OpExit pid n \<in> set xs \<longrightarrow> n \<noteq> 0" by auto
  from Cons.prems(5) s have "do_ops render xs (a1, os1) = Inr (a', os')" by simp
  from Cons.IH [OF ok w1 nz this] show ?case .
qed

lemma reachable_window_has_slots:
  assumes "do_ops render xs (NewAuditor lg m, os0) = Inr (a, os)"
    and "\<forall>pid n. OpExit pid n \<in> set xs \<longrightarrow> n \<noteq> 0"
  shows "\<exists>w. slots_ok w \<and> events a = map stored w"
proof -
  have "slots_ok []" by (simp add: slots_ok_def)
  moreover have "events (NewAuditor lg m) = map stored []" by (simp add: NewAuditor_def)
  ultimately show ?thesis
    using slots_after_do_ops [OF store_ok_NewAuditor _ _ assms(2) assms(1)] by blast
qed

text \<open>
  C1, amended. The window is taken as the specification sees it, slot by slot, with
  every event appended without an exit code and no correlated code equal to 0, and the
  codes \<open>n\<close> and \<open>n'\<close> of the two calls are not 0; nothing is said of the exit code 0.
  \<open>LogCommandExit pid n\<close> changes nothing when no Command event of the pid has its exit
  code absent. Otherwise it sets the exit code of exactly the most recently appended
  Command event of the pid whose exit code is absent and leaves every other slot, the
  older Command events of the pid among them, as it was. A second call with the same
  pid and nothing appended in between is a no-op when no older Command event of the pid
  has its exit code absent, and otherwise sets the exit code of the most recent such
  older event.
\<close>

theorem LogCommandExit_most_recent_absent:
  assumes "slots_ok w" and "events a = map stored w" and "n \<noteq> 0" and "n' \<noteq> 0"
  shows
   "((\<forall>i<length w. \<not> exit_absent pid (w ! i)) \<longrightarrow> LogCommandExit pid n a = a) \<and>
    (\<forall>i<length w.
       exit_absent pid (w ! i) \<and>
       (\<forall>j. i < j \<and> j < length w \<longrightarrow> \<not> exit_absent pid (w ! j)) \<longrightarrow>
       LogCommandExit pid n a = a\<lparr>events := map stored (w[i := (fst (w ! i), Some n)])\<rparr> \<and>
       ((\<forall>j<i. \<not> exit_absent pid (w ! j)) \<longrightarrow>
          LogCommandExit pid n' (LogCommandExit pid n a) = LogCommandExit pid n a) \<and>
       (\<forall>j<i. exit_absent pid (w ! j) \<and>
               (\<forall>k. j < k \<and> k < i \<longrightarrow> \<not> exit_absent pid (w ! k)) \<longrightarrow>
          LogCommandExit pid n' (LogCommandExit pid n a)
            = a\<lparr>events := map stored (w[i := (fst (w ! i), Some n),
                                          j := (fst (w ! j), Some n')])\<rparr>))"
proof (intro conjI allI impI)
  assume "\<forall>i<length w. \<not> exit_absent pid (w ! i)"
  with assms(1,2) show "LogCommandExit pid n a = a" by (rule LogCommandExit_none_absent)
next
  fix i
  assume i: "i < length w"
    and p: "exit_absent pid (w ! i) \<and>
       (\<forall>j. i < j \<and> j < length w \<longrightarrow> \<not> exit_absent pid (w ! j))"
  let ?w = "w[i := (fst (w ! i), Some n)]"
  let ?a = "a\<lparr>events := map stored ?w\<rparr>"
  from assms(1,2) i p show first: "LogCommandExit pid n a = ?a"
    by (intro LogCommandExit_most_recent_slot) simp_all
  have ok: "slots_ok ?w" using assms(1,3) i by (rule slots_ok_backfill)
  have ev: "events ?a = map stored ?w" by simp
  have at_i: "\<not> exit_absent pid (?w ! i)" using i by (simp add: exit_absent_def)
  have other: "j \<noteq> i \<Longrightarrow> ?w ! j = w ! j" for j by simp
  {
    assume older: "\<forall>j<i. \<not> exit_absent pid (w ! j)"
    have "\<forall>j<length ?w. \<not> exit_absent pid (?w ! j)"
    proof (intro allI impI)
      fix j assume j: "j < length ?w"
      show "\<not> exit_absent pid (?w ! j)"
      proof (cases "j = i")
        case True
        with at_i show ?thesis by simp
      next
        case False
        with p older j have "\<not> exit_absent pid (w ! j)"
          by (metis length_list_update nat_neq_iff)
        with False show ?thesis by (simp add: other)
      qed
    qed
    with ok ev have "LogCommandExit pid n' ?a = ?a" by (rule LogCommandExit_none_absent)
    then show "LogCommandExit pid n' (LogCommandExit pid n a) = LogCommandExit pid n a"
      by (simp only: first)
  }
  {
    fix j
    assume j: "j < i"
      and pj: "exit_absent pid (w ! j) \<and> (\<forall>k. j < k \<and> k < i \<longrightarrow> \<not> exit_absent pid (w ! k))"
    have jl: "j < length ?w" using j i by simp
    have aj: "exit_absent pid (?w ! j)" using j pj by (simp add: other)
    have above: "\<forall>k. j < k \<and> k < length ?w \<longrightarrow> \<not> exit_absent pid (?w ! k)"
    proof (intro allI impI)
      fix k assume k: "j < k \<and> k < length ?w"
      show "\<not> exit_absent pid (?w ! k)"
      proof (cases "k = i")
        case True
        with at_i show ?thesis by simp
      next
        case False
        with p pj k have "\<not> exit_absent pid (w ! k)"
          by (metis length_list_update nat_neq_iff)
        with False show ?thesis by (simp add: other)
      qed
    qed
    have "LogCommandExit pid n' ?a = ?a\<lparr>events := map stored (?w[j := (fst (?w ! j), Some n')])\<rparr>"
      using ok ev jl aj above by (rule LogCommandExit_most_recent_slot)
    moreover have "fst (?w ! j) = fst (w ! j)" using j by (simp add: other)
    ultimately show "LogCommandExit pid n' (LogCommandExit pid n a)
        = a\<lparr>events := map stored (w[i := (fst (w ! i), Some n), j := (fst (w ! j), Some n')])\<rparr>"
      by (simp add: first)
  }
qed


theorem LogCommandExit_most_recent_absent_witness:
  "slots_ok [(command_event 7 ''ls'' 0, None), (command_event 7 ''pwd'' 0, None)] \<and>
   events two_pending
     = map stored [(command_event 7 ''ls'' 0, None), (command_event 7 ''pwd'' 0, None)] \<and>
   events (LogCommandExit 7 2 two_pending)
     = [command_event 7 ''ls'' 0, command_event 7 ''pwd'' 2] \<and>
   events (LogCommandExit 7 5 (LogCommandExit 7 2 two_pending))
     = [command_event 7 ''ls'' 5, command_event 7 ''pwd'' 2] \<and>
   LogCommandExit 7 9 (LogCommandExit 7 5 (LogCommandExit 7 2 two_pending))
     = LogCommandExit 7 5 (LogCommandExit 7 2 two_pending)"
proof -
  define w :: "slot list" where
    "w = [(command_event 7 ''ls'' 0, None), (command_event 7 ''pwd'' 0, None)]"
  have ok: "slots_ok w" by (simp add: w_def slots_ok_def command_event_def)
  have ev: "events two_pending = map stored w"
    by (simp add: w_def two_pending_def stored_def)
  have a1: "exit_absent 7 (w ! 1) \<and> (\<forall>j. 1 < j \<and> j < length w \<longrightarrow> \<not> exit_absent 7 (w ! j))"
    by (auto simp: w_def exit_absent_def command_event_def)
  have a0: "exit_absent 7 (w ! 0) \<and> (\<forall>k. 0 < k \<and> k < 1 \<longrightarrow> \<not> exit_absent 7 (w ! k))"
    by (auto simp: w_def exit_absent_def command_event_def)
  have two: "(2::int) \<noteq> 0" and five: "(5::int) \<noteq> 0" by simp_all
  have l1: "1 < length w" and l0: "(0::nat) < 1" by (simp_all add: w_def)
  note T = LogCommandExit_most_recent_absent
    [OF ok ev two five, of 7, THEN conjunct2, rule_format, of 1, OF l1 a1]
  from T have first: "LogCommandExit 7 2 two_pending
      = two_pending\<lparr>events := map stored (w[1 := (fst (w ! 1), Some 2)])\<rparr>"
    by (rule conjunct1)
  from T [THEN conjunct2, THEN conjunct2, rule_format, of 0, OF l0 a0]
  have both: "LogCommandExit 7 5 (LogCommandExit 7 2 two_pending)
      = two_pending\<lparr>events := map stored (w[1 := (fst (w ! 1), Some 2),
                                          0 := (fst (w ! 0), Some 5)])\<rparr>" .
  define w2 where "w2 = w[1 := (fst (w ! 1), Some 2), 0 := (fst (w ! 0), Some 5)]"
  have ok2: "slots_ok w2" by (simp add: w2_def w_def slots_ok_def command_event_def)
  have ev2: "events (two_pending\<lparr>events := map stored w2\<rparr>) = map stored w2" by simp
  have none: "\<forall>i<length w2. \<not> exit_absent 7 (w2 ! i)"
    by (auto simp: w2_def w_def exit_absent_def less_Suc_eq numeral_2_eq_2)
  have nine: "(9::int) \<noteq> 0" by simp
  from LogCommandExit_most_recent_absent [OF ok2 ev2 nine nine, of 7, THEN conjunct1, THEN mp,
      OF none]
  have third: "LogCommandExit 7 9 (two_pending\<lparr>events := map stored w2\<rparr>)
      = two_pending\<lparr>events := map stored w2\<rparr>" .
  have e1: "map stored (w[1 := (fst (w ! 1), Some 2)])
      = [command_event 7 ''ls'' 0, command_event 7 ''pwd'' 2]"
    by (simp add: w_def stored_def command_event_def)
  have e2: "map stored w2 = [command_event 7 ''ls'' 5, command_event 7 ''pwd'' 2]"
    by (simp add: w2_def w_def stored_def command_event_def)
  from third have third': "LogCommandExit 7 9 (LogCommandExit 7 5 (LogCommandExit 7 2 two_pending))
      = LogCommandExit 7 5 (LogCommandExit 7 2 two_pending)"
    by (simp only: both w2_def)
  have c1: "slots_ok [(command_event 7 ''ls'' 0, None), (command_event 7 ''pwd'' 0, None)]"
    using ok by (simp only: w_def)
  have c2: "events two_pending
      = map stored [(command_event 7 ''ls'' 0, None), (command_event 7 ''pwd'' 0, None)]"
    using ev by (simp only: w_def)
  have c3: "events (LogCommandExit 7 2 two_pending)
      = [command_event 7 ''ls'' 0, command_event 7 ''pwd'' 2]"
    by (simp only: first e1, simp)
  have c4: "events (LogCommandExit 7 5 (LogCommandExit 7 2 two_pending))
      = [command_event 7 ''ls'' 5, command_event 7 ''pwd'' 2]"
    by (simp only: both e2 [unfolded w2_def], simp)
  from c1 c2 c3 c4 third' show ?thesis by (intro conjI)
qed

text \<open>
  The second call of C1 is not a no-op in general: with two unterminated commands of
  pid 7 in the window, the first call fills in the newer one and the second call, with
  nothing appended in between, fills in the older one.
\<close>

theorem LogCommandExit_second_call_counterexample:
  "do_calls [CallLogCommand noon 7 1 1000 1000 ''user'' ''ls'' [] ''/home/user'',
             CallLogCommand noon 7 1 1000 1000 ''user'' ''pwd'' [] ''/home/user'']
     (NewAuditor None 10)
     = Inr (NewAuditor None 10\<lparr>events := [command_event 7 ''ls'' 0, command_event 7 ''pwd'' 0]\<rparr>) \<and>
   map ExitCode (events (LogCommandExit 7 2
      (NewAuditor None 10\<lparr>events := [command_event 7 ''ls'' 0, command_event 7 ''pwd'' 0]\<rparr>)))
     = [0, 2] \<and>
   map ExitCode (events (LogCommandExit 7 2 (LogCommandExit 7 2
      (NewAuditor None 10\<lparr>events := [command_event 7 ''ls'' 0, command_event 7 ''pwd'' 0]\<rparr>))))
     = [2, 2]"
  by (simp add: LogCommandExit_def NewAuditor_def command_event_def exit_pending_def
      numeral_2_eq_2 LogCommand_def log_def)

section \<open>Closing the store\<close>

lemma File_Close_twice:
  "File_Close f os = (err, f', os') \<Longrightarrow> File_Close f' os' = (Some ErrClosed, f', os')"
  by (auto simp: File_Close_def split: if_splits)

lemma Logger_Close_twice:
  assumes "Logger_Close l os = (err, l', os')"
  shows "snd (Logger_Close l' os') = (l', os') \<and>
         (fst (Logger_Close l' os') = None \<or> fst (Logger_Close l' os') = Some ErrClosed)"
proof (cases l)
  case (LoggerFile fl)
  obtain e f o' where c: "File_Close (flFile fl) os = (e, f, o')"
    by (cases "File_Close (flFile fl) os") auto
  with assms LoggerFile File_Close_twice [OF c] show ?thesis
    by (auto simp: FileLogger_Close_def)
next
  case (LoggerRotating rl)
  show ?thesis
  proof (cases "currentFile rl")
    case None
    with assms LoggerRotating show ?thesis by (auto simp: RotatingLogger_Close_def)
  next
    case (Some f0)
    obtain e f o' where c: "File_Close f0 os = (e, f, o')"
      by (cases "File_Close f0 os") auto
    with assms LoggerRotating Some File_Close_twice [OF c] show ?thesis
      by (auto simp: RotatingLogger_Close_def)
  qed
next
  case LoggerStdout
  with assms show ?thesis by auto
qed

lemma Close_twice:
  assumes "Close a os = (err, a', os')"
  shows "snd (Close a' os') = (a', os') \<and>
         (fst (Close a' os') = None \<or> fst (Close a' os') = Some ErrClosed)"
proof (cases "logger a")
  case None
  with assms show ?thesis by (auto simp: Close_def)
next
  case (Some l)
  obtain e l' o' where c: "Logger_Close l os = (e, l', o')"
    by (cases "Logger_Close l os") auto
  from assms Some c have a': "a' = a\<lparr>logger := Some l'\<rparr>" and o': "os' = o'"
    by (simp_all add: Close_def)
  obtain e2 l2 o2 where c2: "Logger_Close l' o' = (e2, l2, o2)"
    by (cases "Logger_Close l' o'") auto
  with Logger_Close_twice [OF c] have "l2 = l'" "o2 = o'" "e2 = None \<or> e2 = Some ErrClosed"
    by simp_all
  with a' o' c2 show ?thesis by (simp add: Close_def)
qed

text \<open>
  C8. Take any state the store reaches from \<open>NewAuditor\<close> and close it. A second \<open>Close\<close>
  returns nil or \<open>os.ErrClosed\<close> and changes nothing. Every append on the closed store
  returns without a panic and the event enters the window (no append is rejected), and
  no further run of appends, exit correlations, goroutine runs and closes panics.
\<close>

theorem Close_idempotent_and_append_after_close:
  assumes "do_ops render xs (NewAuditor lg m, os0) = Inr (a, os)"
    and "Close a os = (err, ac, osc)"
  shows "snd (Close ac osc) = (ac, osc) \<and>
         (fst (Close ac osc) = None \<or> fst (Close ac osc) = Some ErrClosed) \<and>
         (\<exists>a'. do_call c ac = Inr a' \<and>
            GetEvents a' = drop (Suc (length (GetEvents ac)) - nat (maxSize ac))
                                (GetEvents ac @ [call_event c])) \<and>
         (\<exists>w. do_ops render ys (ac, osc) = Inr w)"
proof -
  from store_ok_do_ops [OF store_ok_NewAuditor, of render xs lg m os0] assms(1)
  have "store_ok a" by auto
  then have ok: "store_ok ac" using assms(2) by (rule store_ok_Close)
  from store_ok_do_call [OF ok, of c] have
    "\<exists>a'. do_call c ac = Inr a' \<and>
            GetEvents a' = drop (Suc (length (GetEvents ac)) - nat (maxSize ac))
                                (GetEvents ac @ [call_event c])"
    by (auto simp: GetEvents_def)
  moreover from store_ok_do_ops [OF ok, of render ys osc]
  have "\<exists>w. do_ops render ys (ac, osc) = Inr w" by auto
  ultimately show ?thesis using Close_twice [OF assms(2)] by simp
qed

theorem Close_idempotent_and_append_after_close_witness:
  "Close (NewAuditor (Some (LoggerFile sample_file_logger)) 10) sample_file_os
     = (None,
        NewAuditor (Some (LoggerFile (sample_file_logger
             \<lparr>flFile := \<lparr>fName = ''/var/log/audit.log'', fClosed = True\<rparr>\<rparr>))) 10,
        sample_file_os\<lparr>handles := []\<rparr>) \<and>
   Close (NewAuditor (Some (LoggerFile (sample_file_logger
             \<lparr>flFile := \<lparr>fName = ''/var/log/audit.log'', fClosed = True\<rparr>\<rparr>))) 10)
         (sample_file_os\<lparr>handles := []\<rparr>)
     = (Some ErrClosed,
        NewAuditor (Some (LoggerFile (sample_file_logger
             \<lparr>flFile := \<lparr>fName = ''/var/log/audit.log'', fClosed = True\<rparr>\<rparr>))) 10,
        sample_file_os\<lparr>handles := []\<rparr>) \<and>
   (\<exists>a'. do_call (CallLogDNS noon 1 0 0 ''u'' ''example.org'' ''192.0.2.1'' ''A'')
            (NewAuditor (Some (LoggerFile (sample_file_logger
               \<lparr>flFile := \<lparr>fName = ''/var/log/audit.log'', fClosed = True\<rparr>\<rparr>))) 10) = Inr a' \<and>
         GetEvents a' = [call_event (CallLogDNS noon 1 0 0 ''u'' ''example.org'' ''192.0.2.1'' ''A'')])"
proof -
  have reach: "do_ops sample_render [] (NewAuditor (Some (LoggerFile sample_file_logger)) 10,
      sample_file_os) = Inr (NewAuditor (Some (LoggerFile sample_file_logger)) 10, sample_file_os)"
    by simp
  have cl: "Close (NewAuditor (Some (LoggerFile sample_file_logger)) 10) sample_file_os
     = (None,
        NewAuditor (Some (LoggerFile (sample_file_logger
             \<lparr>flFile := \<lparr>fName = ''/var/log/audit.log'', fClosed = True\<rparr>\<rparr>))) 10,
        sample_file_os\<lparr>handles := []\<rparr>)"
    by (simp add: Close_def FileLogger_Close_def File_Close_def NewAuditor_def
        sample_file_logger_def sample_file_os_def)
  have second: "fst (Close (NewAuditor (Some (LoggerFile (sample_file_logger
             \<lparr>flFile := \<lparr>fName = ''/var/log/audit.log'', fClosed = True\<rparr>\<rparr>))) 10)
         (sample_file_os\<lparr>handles := []\<rparr>)) = Some ErrClosed"
    by (simp add: Close_def FileLogger_Close_def File_Close_def NewAuditor_def
        sample_file_logger_def)
  from Close_idempotent_and_append_after_close [OF reach cl,
      of "CallLogDNS noon 1 0 0 ''u'' ''example.org'' ''192.0.2.1'' ''A''" "[]"] second cl
  show ?thesis
    by (simp add: prod_eq_iff NewAuditor_def GetEvents_def)
qed

section \<open>The rotating sink\<close>

lemma wrap64_in_range: "- (2 ^ 63) \<le> x \<Longrightarrow> x < 2 ^ 63 \<Longrightarrow> wrap64 x = x"
  by (simp add: wrap64_def)

lemma format_timestamp_noon: "format_timestamp noon = ''20240101-120000''"
  by (simp add: format_timestamp_def noon_def zero_pad_def digit_char_def decimal.simps)

lemma rotate_opens_new_file:
  assumes "\<not> open_fails env" and "currentFile rl = Some f"
  shows "rotate now env rl os =
     (None,
      rl\<lparr>currentFile := Some \<lparr>fName = basePath rl @ ''.'' @ format_timestamp now @ ''.log'',
                               fClosed = False\<rparr>,
         currentSize := 0\<rparr>,
      os\<lparr>files := (files os)(basePath rl @ ''.'' @ format_timestamp now @ ''.log'' \<mapsto>
             (case files os (basePath rl @ ''.'' @ format_timestamp now @ ''.log'') of
                None \<Rightarrow> [] | Some c \<Rightarrow> c)),
         handles := (if fClosed f then handles os else remove1 (fName f) (handles os))
                    @ [basePath rl @ ''.'' @ format_timestamp now @ ''.log'']\<rparr>)"
  using assms by (simp add: rotate_def OpenFile_def File_Close_def Let_def)

lemma NewRotatingLogger_default:
  assumes "\<not> open_fails env" and "m \<le> 0"
  shows "\<exists>rl os'. NewRotatingLogger now env p m os = Inr (rl, os') \<and>
           rlMaxSize rl = 100 * 1024 * 1024 \<and> currentSize rl = 0 \<and>
           currentFile rl = Some \<lparr>fName = p @ ''.'' @ format_timestamp now @ ''.log'',
                                   fClosed = False\<rparr>"
  using assms by (simp add: NewRotatingLogger_def rotate_def OpenFile_def wrap64_def Let_def)

text \<open>
  One \<open>Log\<close> call of the rotating sink whose system calls succeed, from any state
  with a current file. When the counter plus the size of the serialized event, the line
  feed not counted, exceeds the threshold, the sink closes the current file, opens in
  append mode the file named after the clock and writes the line there; the counter is
  then the size of that one write. Otherwise the line goes to the current file and the
  counter grows by the size of the write. A threshold of zero or less megabytes given to
  the constructor means 100 MiB.
\<close>

lemma RotatingLogger_Log_step:
  fixes render :: "json \<Rightarrow> string"
  defines "path \<equiv> \<lambda>rl now. basePath rl @ ''.'' @ format_timestamp now @ ''.log''"
  assumes "\<not> open_fails env" and "\<not> write_fails env" and "\<not> sync_fails env"
    and "currentFile rl = Some f"
    and "0 \<le> currentSize rl"
    and "currentSize rl + int (length (render (ToJSON event))) + 1 < 2 ^ 63"
  shows "(currentSize rl + int (length (render (ToJSON event))) > rlMaxSize rl \<longrightarrow>
           RotatingLogger_Log render now env event rl os =
             (None,
              rl\<lparr>currentFile := Some \<lparr>fName = path rl now, fClosed = False\<rparr>,
                 currentSize := int (length (render (ToJSON event) @ newline))\<rparr>,
              os\<lparr>files := (files os)(path rl now \<mapsto>
                     (case files os (path rl now) of None \<Rightarrow> [] | Some c \<Rightarrow> c)
                       @ render (ToJSON event) @ newline),
                 handles := (if fClosed f then handles os
                             else remove1 (fName f) (handles os)) @ [path rl now]\<rparr>)) \<and>
         (currentSize rl + int (length (render (ToJSON event))) \<le> rlMaxSize rl \<and> \<not> fClosed f \<longrightarrow>
           RotatingLogger_Log render now env event rl os =
             (None,
              rl\<lparr>currentSize := currentSize rl + int (length (render (ToJSON event) @ newline))\<rparr>,
              os\<lparr>files := (files os)(fName f \<mapsto>
                     (case files os (fName f) of None \<Rightarrow> [] | Some c \<Rightarrow> c)
                       @ render (ToJSON event) @ newline)\<rparr>)) \<and>
         (\<forall>m\<le>0. \<exists>rl0 os0. NewRotatingLogger now env (basePath rl) m os = Inr (rl0, os0) \<and>
              rlMaxSize rl0 = 100 * 1024 * 1024 \<and> currentSize rl0 = 0 \<and>
              currentFile rl0 = Some \<lparr>fName = path rl now, fClosed = False\<rparr>)"
proof (intro conjI impI allI)
  let ?n = "int (length (render (ToJSON event)))"
  have w1: "wrap64 (currentSize rl + ?n) = currentSize rl + ?n"
    using assms(6,7) by (intro wrap64_in_range) simp_all
  have w2: "wrap64 (currentSize rl + (?n + 1)) = currentSize rl + (?n + 1)"
    using assms(6,7) by (intro wrap64_in_range) simp_all
  have w3: "wrap64 (?n + 1) = ?n + 1"
    using assms(6,7) by (intro wrap64_in_range) simp_all
  {
    assume big: "currentSize rl + ?n > rlMaxSize rl"
    show "RotatingLogger_Log render now env event rl os =
             (None,
              rl\<lparr>currentFile := Some \<lparr>fName = path rl now, fClosed = False\<rparr>,
                 currentSize := int (length (render (ToJSON event) @ newline))\<rparr>,
              os\<lparr>files := (files os)(path rl now \<mapsto>
                     (case files os (path rl now) of None \<Rightarrow> [] | Some c \<Rightarrow> c)
                       @ render (ToJSON event) @ newline),
                 handles := (if fClosed f then handles os
                             else remove1 (fName f) (handles os)) @ [path rl now]\<rparr>)"
      using big assms(2-4) w1 w3
      by (simp add: RotatingLogger_Log_def rotate_opens_new_file [OF assms(2,5)]
          File_Write_def File_Sync_def path_def newline_def Let_def)
  }
  {
    assume small: "currentSize rl + ?n \<le> rlMaxSize rl \<and> \<not> fClosed f"
    show "RotatingLogger_Log render now env event rl os =
             (None,
              rl\<lparr>currentSize := currentSize rl + int (length (render (ToJSON event) @ newline))\<rparr>,
              os\<lparr>files := (files os)(fName f \<mapsto>
                     (case files os (fName f) of None \<Rightarrow> [] | Some c \<Rightarrow> c)
                       @ render (ToJSON event) @ newline)\<rparr>)"
      using small assms(2-5) w1 w2
      by (simp add: RotatingLogger_Log_def File_Write_def File_Sync_def newline_def Let_def)
  }
  {
    fix m :: int assume "m \<le> 0"
    from NewRotatingLogger_default [OF assms(2) this, of now "basePath rl" os]
    show "\<exists>rl0 os0. NewRotatingLogger now env (basePath rl) m os = Inr (rl0, os0) \<and>
              rlMaxSize rl0 = 100 * 1024 * 1024 \<and> currentSize rl0 = 0 \<and>
              currentFile rl0 = Some \<lparr>fName = path rl now, fClosed = False\<rparr>"
      by (simp add: path_def)
  }
qed

lemma RotatingLogger_Log_examples:
  "RotatingLogger_Log sample_render noon io_ok readme_event sample_rotating_logger empty_os =
     (None,
      sample_rotating_logger
        \<lparr>currentFile := Some \<lparr>fName = ''audit.20240101-120000.log'', fClosed = False\<rparr>,
         currentSize := 3\<rparr>,
      empty_os\<lparr>files := [''audit.20240101-120000.log'' \<mapsto> ''{}'' @ newline],
               handles := [''audit.20240101-120000.log'']\<rparr>) \<and>
   RotatingLogger_Log sample_render noon io_ok readme_event
       (sample_rotating_logger\<lparr>currentSize := 1048574\<rparr>) empty_os =
     (None,
      sample_rotating_logger\<lparr>currentSize := 1048577\<rparr>,
      empty_os\<lparr>files := [''audit.20240101-115959.log'' \<mapsto> ''{}'' @ newline]\<rparr>)"
proof -
  have f: "currentFile sample_rotating_logger
      = Some \<lparr>fName = ''audit.20240101-115959.log'', fClosed = False\<rparr>"
    by (simp add: sample_rotating_logger_def)
  have io: "\<not> open_fails io_ok" "\<not> write_fails io_ok" "\<not> sync_fails io_ok"
    by (simp_all add: io_ok_def)
  have r1: "0 \<le> currentSize sample_rotating_logger"
    "currentSize sample_rotating_logger + int (length (sample_render (ToJSON readme_event))) + 1
       < 2 ^ 63"
    by (simp_all add: sample_rotating_logger_def sample_render_def)
  have f2: "currentFile (sample_rotating_logger\<lparr>currentSize := 1048574\<rparr>)
      = Some \<lparr>fName = ''audit.20240101-115959.log'', fClosed = False\<rparr>"
    by (simp add: sample_rotating_logger_def)
  have r2: "0 \<le> currentSize (sample_rotating_logger\<lparr>currentSize := 1048574\<rparr>)"
    "currentSize (sample_rotating_logger\<lparr>currentSize := 1048574\<rparr>)
       + int (length (sample_render (ToJSON readme_event))) + 1 < 2 ^ 63"
    by (simp_all add: sample_render_def)
  from RotatingLogger_Log_step [where render = sample_render and event = readme_event
      and now = noon and os = empty_os, OF io f r1]
  have a: "RotatingLogger_Log sample_render noon io_ok readme_event sample_rotating_logger empty_os =
     (None,
      sample_rotating_logger
        \<lparr>currentFile := Some \<lparr>fName = ''audit.20240101-120000.log'', fClosed = False\<rparr>,
         currentSize := 3\<rparr>,
      empty_os\<lparr>files := [''audit.20240101-120000.log'' \<mapsto> ''{}'' @ newline],
               handles := [''audit.20240101-120000.log'']\<rparr>)"
    by (simp add: sample_rotating_logger_def sample_render_def empty_os_def newline_def
        format_timestamp_noon)
  from RotatingLogger_Log_step [where render = sample_render and event = readme_event
      and now = noon and os = empty_os, OF io f2 r2]
  have b: "RotatingLogger_Log sample_render noon io_ok readme_event
       (sample_rotating_logger\<lparr>currentSize := 1048574\<rparr>) empty_os =
     (None,
      sample_rotating_logger\<lparr>currentSize := 1048577\<rparr>,
      empty_os\<lparr>files := [''audit.20240101-115959.log'' \<mapsto> ''{}'' @ newline]\<rparr>)"
    by (simp add: sample_rotating_logger_def sample_render_def empty_os_def newline_def)
  from a b show ?thesis by simp
qed

text \<open>
  C7 at inputs where the code departs from it. The sink is built at noon with a
  threshold of 1 MiB and two events of 600000 serialized bytes are logged in that same
  second. The second write would push the counter past the threshold, so the sink
  rotates: the name it builds from the clock is the name of the current file, the file
  it opens is that file, and the line is appended to it. No new file exists, the one
  file holds 1200002 bytes, more than the threshold, and the counter says 600001. And
  an event of 1048576 serialized bytes logged to the fresh sink is written with no
  rotation and leaves the counter at 1048577, one past the threshold: the test before
  the write leaves the line feed out.
\<close>

theorem rotation_in_the_same_second_reopens_the_file:
  "NewRotatingLogger noon io_ok ''audit'' 1 empty_os = Inr (rotating_at_noon, os_at_noon []) \<and>
   RotatingLogger_Log (render_of_size 600000) noon io_ok readme_event
       rotating_at_noon (os_at_noon [])
     = (None, rotating_at_noon\<lparr>currentSize := 600001\<rparr>,
        os_at_noon (replicate 600000 (CHR ''x'') @ newline)) \<and>
   RotatingLogger_Log (render_of_size 600000) noon io_ok readme_event
       (rotating_at_noon\<lparr>currentSize := 600001\<rparr>)
       (os_at_noon (replicate 600000 (CHR ''x'') @ newline))
     = (None, rotating_at_noon\<lparr>currentSize := 600001\<rparr>,
        os_at_noon (replicate 600000 (CHR ''x'') @ newline
                    @ replicate 600000 (CHR ''x'') @ newline)) \<and>
   int (length (replicate 600000 (CHR ''x'') @ newline
                @ replicate 600000 (CHR ''x'') @ newline)) = 1200002 \<and>
   rlMaxSize rotating_at_noon = 1048576 \<and>
   RotatingLogger_Log (render_of_size 1048576) noon io_ok readme_event
       rotating_at_noon (os_at_noon [])
     = (None, rotating_at_noon\<lparr>currentSize := 1048577\<rparr>,
        os_at_noon (replicate 1048576 (CHR ''x'') @ newline))"
proof (intro conjI)
  show "NewRotatingLogger noon io_ok ''audit'' 1 empty_os = Inr (rotating_at_noon, os_at_noon [])"
    by (simp add: NewRotatingLogger_def rotate_def OpenFile_def Let_def wrap64_def io_ok_def
        empty_os_def rotating_at_noon_def os_at_noon_def format_timestamp_noon)
  show "RotatingLogger_Log (render_of_size 600000) noon io_ok readme_event
       rotating_at_noon (os_at_noon [])
     = (None, rotating_at_noon\<lparr>currentSize := 600001\<rparr>,
        os_at_noon (replicate 600000 (CHR ''x'') @ newline))"
    by (simp add: RotatingLogger_Log_def Let_def wrap64_def io_ok_def File_Write_def File_Sync_def
        rotating_at_noon_def os_at_noon_def render_of_size_def newline_def)
  show "RotatingLogger_Log (render_of_size 600000) noon io_ok readme_event
       (rotating_at_noon\<lparr>currentSize := 600001\<rparr>)
       (os_at_noon (replicate 600000 (CHR ''x'') @ newline))
     = (None, rotating_at_noon\<lparr>currentSize := 600001\<rparr>,
        os_at_noon (replicate 600000 (CHR ''x'') @ newline
                    @ replicate 600000 (CHR ''x'') @ newline))"
    by (simp add: RotatingLogger_Log_def Let_def wrap64_def io_ok_def File_Write_def File_Sync_def
        rotate_def OpenFile_def File_Close_def format_timestamp_noon
        rotating_at_noon_def os_at_noon_def render_of_size_def newline_def)
  show "int (length (replicate 600000 (CHR ''x'') @ newline
                @ replicate 600000 (CHR ''x'') @ newline)) = 1200002"
    by (simp add: newline_def)
  show "rlMaxSize rotating_at_noon = 1048576" by (simp add: rotating_at_noon_def)
  show "RotatingLogger_Log (render_of_size 1048576) noon io_ok readme_event
       rotating_at_noon (os_at_noon [])
     = (None, rotating_at_noon\<lparr>currentSize := 1048577\<rparr>,
        os_at_noon (replicate 1048576 (CHR ''x'') @ newline))"
    by (simp add: RotatingLogger_Log_def Let_def wrap64_def io_ok_def File_Write_def File_Sync_def
        rotating_at_noon_def os_at_noon_def render_of_size_def newline_def)
qed

section \<open>Decoding command records\<close>

text \<open>
  C3 at the input where the code departs from it. A record with \<open>ArgCount = 1\<close> whose
  argument region starts with the length prefix \<open>0xFFFFFFFE\<close>: after the prefix
  \<open>offset\<close> is 4, the sum \<open>offset + strLen\<close> wraps to 2, the bounds test
  \<open>offset+strLen > 512\<close> lets it pass, and the slice expression \<open>argData[4:2]\<close> panics.
\<close>

theorem ParseExecveEvent_panics_on_wrapping_length:
  "ParseExecveEvent (execve_record 1 [0xFE, 0xFF, 0xFF, 0xFF]) = Inl SliceBoundsOutOfRange"
  by (simp add: ParseExecveEvent_def execve_record_def ParseExecveEvent_loop.simps slice_def)

text \<open>
  C5 at an input where the code departs from it. The region holds the argument
  \<open>ls\<close> with its prefix, then a prefix \<open>0xFFFFFFFA\<close>, with \<open>ArgCount = 2\<close>. The
  remaining region cannot hold the second argument; the decoder does not stop with the
  arguments read so far but panics, \<open>10 + 0xFFFFFFFA\<close> having wrapped to 4.
\<close>

theorem ParseExecveEvent_truncation_panics:
  "ParseExecveEvent
     (execve_record 2 [2, 0, 0, 0, 0x6c, 0x73, 0xFA, 0xFF, 0xFF, 0xFF])
     = Inl SliceBoundsOutOfRange"
  by (simp add: ParseExecveEvent_def execve_record_def ParseExecveEvent_loop.simps slice_def
      bytesToString_def)

text \<open>The same decoder on a well-formed region and on one cut short.\<close>

lemma ParseExecveEvent_two_arguments:
  "ParseExecveEvent
     (execve_record 2 [2, 0, 0, 0, 0x6c, 0x73, 3, 0, 0, 0, 0x2d, 0x6c, 0x61])
     = Inr ([0x6c, 0x73], [[0x6c, 0x73], [0x2d, 0x6c, 0x61]], [0x2f, 0x74, 0x6d, 0x70])"
  by (simp add: ParseExecveEvent_def execve_record_def ParseExecveEvent_loop.simps slice_def
      bytesToString_def)

lemma ParseExecveEvent_silent_truncation:
  "ParseExecveEvent
     (execve_record 2 [2, 0, 0, 0, 0x6c, 0x73, 0, 2, 0, 0, 0x2d, 0x6c, 0x61])
     = Inr ([0x6c, 0x73], [[0x6c, 0x73]], [0x2f, 0x74, 0x6d, 0x70])"
  by (simp add: ParseExecveEvent_def execve_record_def ParseExecveEvent_loop.simps slice_def
      bytesToString_def)

lemma LittleEndian_Uint32_short: "length r < 4 \<Longrightarrow> LittleEndian_Uint32 r = Inl IndexOutOfRange"
  by (cases r rule: LittleEndian_Uint32.cases) auto

lemma LittleEndian_Uint32_take: "4 \<le> length r \<Longrightarrow> LittleEndian_Uint32 (take 4 r) = LittleEndian_Uint32 r"
  by (cases r rule: LittleEndian_Uint32.cases) auto

lemma LittleEndian_Uint32_long: "4 \<le> length r \<Longrightarrow> \<exists>s. LittleEndian_Uint32 r = Inr s"
  by (cases r rule: LittleEndian_Uint32.cases) auto

lemma unat_len32: "L < 2 ^ 31 \<Longrightarrow> unat (of_nat L :: 32 word) = L"
  by (simp add: unat_of_nat)

lemma unat_plus4: "unat (offset :: 32 word) < 2 ^ 31 \<Longrightarrow> unat (offset + 4) = unat offset + 4"
  by (simp add: unat_word_ariths)

lemma unat_succ_lt: "(i :: 32 word) < argCount \<Longrightarrow> unat (i + 1) = unat i + 1"
proof -
  assume "i < argCount"
  then have a: "unat i < unat argCount" by (simp add: word_less_nat_alt)
  have "unat argCount < 2 ^ 32" using unsigned_less [of argCount] by simp
  with a have "unat i + unat (1 :: 32 word) < 2 ^ LENGTH(32)" by simp
  then have "unat (i + 1) = unat i + unat (1 :: 32 word)"
    by (simp only: unat_add_lem [THEN iffD1])
  then show ?thesis by simp
qed


lemma ParseExecveEvent_loop_decode_args:
  fixes argData :: "byte list"
  assumes L: "length argData < 2 ^ 31"
  shows "unat argCount - unat i = n \<Longrightarrow> unat offset \<le> length argData \<Longrightarrow>
     ParseExecveEvent_loop argData argCount i offset args =
       (case decode_args n (unat offset) (drop (unat offset) argData) of
          Inl p \<Rightarrow> Inl p
        | Inr xs \<Rightarrow> Inr (args @ xs))"
proof (induction n arbitrary: i offset args)
  case 0
  then have "\<not> i < argCount" by (simp add: word_less_nat_alt)
  then show ?case by (subst ParseExecveEvent_loop.simps) simp
next
  case (Suc n)
  let ?o = "unat offset" and ?r = "drop (unat offset) argData" and ?L = "length argData"
  have lenw: "unat (of_nat ?L :: 32 word) = ?L" using L by (rule unat_len32)
  from Suc.prems have i: "i < argCount" by (simp add: word_less_nat_alt)
  have osmall: "?o < 2 ^ 31" using Suc.prems L by simp
  have o4: "unat (offset + 4) = ?o + 4" using osmall by (rule unat_plus4)
  show ?case
  proof (cases "?o + 4 \<le> ?L")
    case False
    then have "offset \<ge> of_nat ?L \<or> offset + 4 > of_nat ?L"
      by (simp add: word_le_nat_alt word_less_nat_alt lenw o4)
    then have lhs: "ParseExecveEvent_loop argData argCount i offset args = Inr args"
      using i by (subst ParseExecveEvent_loop.simps) auto
    from False have "length ?r < 4" by simp
    then have "LittleEndian_Uint32 ?r = Inl IndexOutOfRange"
      by (rule LittleEndian_Uint32_short)
    then show ?thesis using lhs by simp
  next
    case True
    then have c1: "\<not> offset \<ge> of_nat ?L" and c2: "\<not> offset + 4 > of_nat ?L"
      by (simp_all add: word_le_nat_alt word_less_nat_alt lenw o4)
    have r4: "4 \<le> length ?r" using True by simp
    then obtain s where s: "LittleEndian_Uint32 ?r = Inr s"
      using LittleEndian_Uint32_long by blast
    have sl: "slice argData offset (offset + 4) = Inr (take 4 ?r)"
      using True by (simp add: slice_def o4)
    have le: "LittleEndian_Uint32 (take 4 ?r) = Inr s"
      using r4 s by (simp add: LittleEndian_Uint32_take)
    have sum: "unat (offset + 4 + s) =
        (if ?o + 4 + unat s < 2 ^ 32 then ?o + 4 + unat s else ?o + 4 + unat s - 2 ^ 32)"
      using unat_plus_if' [of "offset + 4" s] o4 by simp
    show ?thesis
    proof (cases "?o + 4 + unat s \<ge> 2 ^ 32")
      case wrap: True
      have "unat s < 2 ^ 32" using unsigned_less [of s] by simp
      with wrap sum have wlt: "unat (offset + 4 + s) < ?o + 4" by simp
      with True have c3: "\<not> offset + 4 + s > of_nat ?L"
        by (simp add: word_less_nat_alt lenw)
      have sl2: "slice argData (offset + 4) (offset + 4 + s) = Inl SliceBoundsOutOfRange"
        using wlt by (simp add: slice_def o4)
      have lhs: "ParseExecveEvent_loop argData argCount i offset args = Inl SliceBoundsOutOfRange"
        using i c1 c2 c3 sl le sl2 by (subst ParseExecveEvent_loop.simps) simp
      show ?thesis using lhs s wrap by simp
    next
      case nowrap: False
      with sum have w: "unat (offset + 4 + s) = ?o + 4 + unat s" by simp
      show ?thesis
      proof (cases "?o + 4 + unat s > ?L")
        case stop: True
        then have c3: "offset + 4 + s > of_nat ?L"
          by (simp add: word_less_nat_alt lenw w)
        have lhs: "ParseExecveEvent_loop argData argCount i offset args = Inr args"
          using i c1 c2 c3 sl le by (subst ParseExecveEvent_loop.simps) simp
        from stop True have "4 + unat s > length ?r" by simp
        with lhs s nowrap show ?thesis by simp
      next
        case fits: False
        then have c3: "\<not> offset + 4 + s > of_nat ?L"
          by (simp add: word_less_nat_alt lenw w)
        have sl2: "slice argData (offset + 4) (offset + 4 + s)
            = Inr (take (unat s) (drop 4 ?r))"
        proof -
          have "take (unat s) (drop 4 ?r) = take (?o + 4 + unat s - (?o + 4)) (drop (?o + 4) argData)"
            by (simp add: add.commute)
          moreover have "?o + 4 \<le> ?o + 4 + unat s \<and> ?o + 4 + unat s \<le> ?L"
            using fits by simp
          ultimately show ?thesis
            by (simp only: slice_def o4 w simp_thms if_True)
        qed
        have n: "unat argCount - unat (i + 1) = n"
          using Suc.prems(1) unat_succ_lt [OF i] by simp
        have b: "unat (offset + 4 + s) \<le> ?L" using fits w by simp
        have d: "drop (4 + unat s) ?r = drop (?o + 4 + unat s) argData"
          by (simp add: add.commute add.left_commute)
        have lhs: "ParseExecveEvent_loop argData argCount i offset args =
            ParseExecveEvent_loop argData argCount (i + 1) (offset + 4 + s)
              (args @ [bytesToString (take (unat s) (drop 4 ?r))])"
          using i c1 c2 c3 sl le sl2 by (subst ParseExecveEvent_loop.simps) simp
        from fits True have f: "\<not> 4 + unat s > length ?r" by simp
        define rest where "rest = decode_args n (?o + 4 + unat s) (drop (?o + 4 + unat s) argData)"
        have ih: "ParseExecveEvent_loop argData argCount (i + 1) (offset + 4 + s)
              (args @ [bytesToString (take (unat s) (drop 4 ?r))])
            = (case rest of Inl p \<Rightarrow> Inl p
               | Inr xs \<Rightarrow> Inr ((args @ [bytesToString (take (unat s) (drop 4 ?r))]) @ xs))"
          using Suc.IH [OF n b] by (simp only: w rest_def)
        have rhs: "decode_args (Suc n) ?o ?r
            = (case rest of Inl p \<Rightarrow> Inl p
               | Inr xs \<Rightarrow> Inr (bytesToString (take (unat s) (drop 4 ?r)) # xs))"
          using nowrap f by (simp only: decode_args.simps s sum.case d rest_def if_False)
        show ?thesis
          unfolding lhs ih rhs by (cases rest) simp_all
      qed
    qed
  qed
qed

lemma decode_args_run:
  "decode_args n off region = Inr xs \<Longrightarrow>
     xs = map bytesToString (length_prefixed_run n region)"
proof (induction n arbitrary: off region xs)
  case 0
  then show ?case by simp
next
  case (Suc n)
  then show ?case
    by (auto split: sum.splits if_splits)
qed

text \<open>
  On a record with its 512-byte region the decoder, unless it panics, returns the
  arguments of the length-prefixed run of the specification, each cut at its first zero
  byte by \<open>bytesToString\<close>, as the two fixed fields are; and it panics only on a length
  prefix that makes the 32-bit sum wrap.
\<close>

lemma ParseExecveEvent_decodes_run:
  assumes "length (eArgs e) = 512"
  shows "ParseExecveEvent e = Inl SliceBoundsOutOfRange \<or>
         ParseExecveEvent e =
           Inr (bytesToString (eComm e),
                map bytesToString (length_prefixed_run (unat (eArgCount e)) (eArgs e)),
                bytesToString (eWorkingDir e))"
proof -
  have "ParseExecveEvent_loop (eArgs e) (eArgCount e) 0 0 [] =
      (case decode_args (unat (eArgCount e)) 0 (eArgs e) of
         Inl p \<Rightarrow> Inl p | Inr xs \<Rightarrow> Inr ([] @ xs))"
    using ParseExecveEvent_loop_decode_args [of "eArgs e" "eArgCount e" 0 _ 0 "[]"] assms
    by simp
  moreover have "decode_args n off r = Inl p \<Longrightarrow> p = SliceBoundsOutOfRange" for n off r p
    by (induction n arbitrary: off r) (auto split: sum.splits if_splits)
  ultimately show ?thesis
    using decode_args_run [of "unat (eArgCount e)" 0 "eArgs e"]
    by (cases "decode_args (unat (eArgCount e)) 0 (eArgs e)")
       (auto simp: ParseExecveEvent_def)
qed

section \<open>Decoding addresses and ports\<close>

lemma index_chain_in_range:
  "\<forall>(i, v) \<in> set cs. i < length b \<Longrightarrow>
     index_chain b cs = Inr (\<forall>(i, v) \<in> set cs. b ! i = v)"
  by (induction cs) (auto simp: index_def)

lemma set_join: "set (join sep xs) \<subseteq> set sep \<union> \<Union> (set ` set xs)"
  by (induction sep xs rule: join.induct) auto

lemma hex_digit_not_dot: "d < 16 \<Longrightarrow> hex_digit d \<noteq> CHR ''.''"
proof -
  assume d: "d < 16"
  have "list_all (\<lambda>c. c \<noteq> CHR ''.'') ''0123456789abcdef''" by simp
  then have "\<forall>n<length ''0123456789abcdef''. ''0123456789abcdef'' ! n \<noteq> CHR ''.''"
    by (simp only: list_all_length)
  with d show ?thesis by (simp add: hex_digit_def)
qed

lemma hex_no_dot: "CHR ''.'' \<notin> set (hex n)"
proof (induction n rule: hex.induct)
  case (1 n)
  show ?case
  proof (cases "n < 16")
    case True
    then show ?thesis using hex_digit_not_dot [of n] by (subst hex.simps) simp
  next
    case False
    have "n mod 16 < 16" by simp
    from hex_digit_not_dot [OF this] 1 False show ?thesis
      by (subst hex.simps) simp
  qed
qed

lemma join_hex_no_dot: "CHR ''.'' \<notin> set (join '':'' (map hex gs))"
proof
  assume "CHR ''.'' \<in> set (join '':'' (map hex gs))"
  with set_join [of "'':''" "map hex gs"]
  have "CHR ''.'' \<in> set '':'' \<union> \<Union> (set ` set (map hex gs))" by (rule subsetD)
  then have "CHR ''.'' \<in> \<Union> (set ` set (map hex gs))" by simp
  then obtain g where "CHR ''.'' \<in> set (hex g)" by auto
  with hex_no_dot show False by blast
qed

lemma string6_no_dot: "CHR ''.'' \<notin> set (string6 ip)"
proof -
  define gs where "gs = map (v6u16 ip) [0..<8]"
  obtain zs ze where r: "longest_zero_run gs = (zs, ze)"
    by (cases "longest_zero_run gs") auto
  have s: "string6 ip = (if zs = 255 then join '':'' (map hex gs)
         else join '':'' (map hex (take zs gs)) @ ''::'' @ join '':'' (map hex (drop ze gs)))"
    unfolding string6_def gs_def [symmetric] Let_def r by simp
  show ?thesis
    unfolding s using join_hex_no_dot [of gs] join_hex_no_dot [of "take zs gs"]
      join_hex_no_dot [of "drop ze gs"]
    by (cases "zs = 255") simp_all
qed

lemma dotted_has_dot: "CHR ''.'' \<in> set (dotted [a, b, c, d])"
  by (simp add: dotted_def)

lemma IP_String_net_IPv4: "IP_String (net_IPv4 a b c d) = dotted [a, b, c, d]"
  by (simp add: IP_String_def net_IPv4_def v4InV6Prefix_def IP_To4_def)

lemma length_16_explicit:
  assumes "length (b :: 'a list) = 16"
  obtains x0 x1 x2 x3 x4 x5 x6 x7 x8 x9 x10 x11 x12 x13 x14 x15
  where "b = [x0, x1, x2, x3, x4, x5, x6, x7, x8, x9, x10, x11, x12, x13, x14, x15]"
proof -
  from assms have "length b = Suc (Suc (Suc (Suc (Suc (Suc (Suc (Suc (Suc (Suc (Suc (Suc
      (Suc (Suc (Suc (Suc 0)))))))))))))))" by simp
  then show ?thesis using that by (auto simp: length_Suc_conv)
qed

lemma ipToString_16:
  assumes "length b = 16"
  shows "ipToString b = Inr (if take 12 b = v4InV6Prefix
                             then dotted (drop 12 b) else string6 b)"
proof -
  let ?cs = "[(0, 0), (1, 0), (2, 0), (3, 0), (4, 0), (5, 0), (6, 0), (7, 0),
              (8, 0), (9, 0), (10, 0xff), (11, 0xff)] :: (nat \<times> byte) list"
  from assms obtain x0 x1 x2 x3 x4 x5 x6 x7 x8 x9 x10 x11 x12 x13 x14 x15
    where b: "b = [x0, x1, x2, x3, x4, x5, x6, x7, x8, x9, x10, x11, x12, x13, x14, x15]"
    by (rule length_16_explicit)
  have "\<forall>(i, v) \<in> set ?cs. i < length b" using assms by simp
  then have chain: "index_chain b ?cs = Inr (\<forall>(i, v) \<in> set ?cs. b ! i = v)"
    by (rule index_chain_in_range)
  have m: "(\<forall>(i, v) \<in> set ?cs. b ! i = v) \<longleftrightarrow> take 12 b = v4InV6Prefix"
    by (simp add: b v4InV6Prefix_def)
  have to4: "IP_To4 b = (if take 12 b = v4InV6Prefix then Some (drop 12 b) else None)"
    by (simp add: b IP_To4_def v4InV6Prefix_def)
  have idx: "index_all b [12, 13, 14, 15] = Inr [x12, x13, x14, x15]"
    by (simp add: b index_def)
  have d: "drop 12 b = [x12, x13, x14, x15]" by (simp add: b)
  have str: "IP_String b = (if take 12 b = v4InV6Prefix then dotted (drop 12 b) else string6 b)"
    using assms by (simp add: IP_String_def to4)
  show ?thesis
    unfolding ipToString_def chain m idx d
    by (simp add: IP_String_net_IPv4 str d)
qed

lemma dotted_four_has_dot: "length p = 4 \<Longrightarrow> CHR ''.'' \<in> set (dotted p)"
proof -
  assume "length p = 4"
  then have "length p = Suc (Suc (Suc (Suc 0)))" by simp
  then obtain a b c d where "p = [a, b, c, d]" by (auto simp: length_Suc_conv)
  then show ?thesis by (simp add: dotted_has_dot)
qed

text \<open>
  C6, as the code has it. On a 16-byte buffer \<open>ipToString\<close> never panics; it prints
  the last four bytes in dotted decimal exactly when the first twelve are the
  IPv4-mapped prefix (ten zero bytes, then \<open>ff ff\<close>) and the IPv6 text form of the
  sixteen bytes otherwise, and only the dotted form contains a dot.
  \<open>ParseConnectEvent\<close> renders both addresses so and returns the two port fields of
  the record as they are, without any conversion of byte order.
\<close>

theorem ipToString_v4_mapped_prefix:
  "(length b = 16 \<longrightarrow>
      ipToString b = Inr (if take 12 b = v4InV6Prefix then dotted (drop 12 b) else string6 b) \<and>
      CHR ''.'' \<in> set (dotted (drop 12 b)) \<and> CHR ''.'' \<notin> set (string6 b)) \<and>
   (length (SrcAddr e) = 16 \<and> length (DstAddr e) = 16 \<longrightarrow>
      (\<exists>srcIP dstIP. ipToString (SrcAddr e) = Inr srcIP \<and> ipToString (DstAddr e) = Inr dstIP \<and>
         ParseConnectEvent e
           = Inr (srcIP, dstIP, uint (SrcPort e), uint (DstPort e), protocol_name (cProtocol e))))"
proof (intro conjI impI)
  assume "length b = 16"
  then show "ipToString b
      = Inr (if take 12 b = v4InV6Prefix then dotted (drop 12 b) else string6 b)"
    by (rule ipToString_16)
  show "CHR ''.'' \<notin> set (string6 b)" by (rule string6_no_dot)
  from \<open>length b = 16\<close> show "CHR ''.'' \<in> set (dotted (drop 12 b))"
    by (intro dotted_four_has_dot) simp
next
  assume "length (SrcAddr e) = 16 \<and> length (DstAddr e) = 16"
  then show "\<exists>srcIP dstIP. ipToString (SrcAddr e) = Inr srcIP \<and>
      ipToString (DstAddr e) = Inr dstIP \<and>
      ParseConnectEvent e
        = Inr (srcIP, dstIP, uint (SrcPort e), uint (DstPort e), protocol_name (cProtocol e))"
    by (simp add: ParseConnectEvent_def ipToString_16)
qed

lemma dotted_192_168_1_1: "dotted [0xc0, 0xa8, 1, 1] = ''192.168.1.1''"
  by (simp add: dotted_def decimal.simps digit_char_def)

lemma dotted_10_0_0_5: "dotted [10, 0, 0, 5] = ''10.0.0.5''"
  by (simp add: dotted_def decimal.simps digit_char_def)

theorem ipToString_v4_mapped_prefix_witness:
  "ipToString (v4InV6Prefix @ [0xc0, 0xa8, 1, 1]) = Inr ''192.168.1.1'' \<and>
   ParseConnectEvent (connect_record (v4InV6Prefix @ [0xc0, 0xa8, 1, 1]) 8080)
     = Inr (''10.0.0.5'', ''192.168.1.1'', 54321, 8080, ''tcp'')"
proof -
  have len: "length (v4InV6Prefix @ [0xc0, 0xa8, 1, 1]) = 16"
    by (simp add: v4InV6Prefix_def)
  have lens: "length (SrcAddr (connect_record (v4InV6Prefix @ [0xc0, 0xa8, 1, 1]) 8080)) = 16 \<and>
      length (DstAddr (connect_record (v4InV6Prefix @ [0xc0, 0xa8, 1, 1]) 8080)) = 16"
    by (simp add: connect_record_def v4InV6Prefix_def)
  from ipToString_v4_mapped_prefix
    [of "v4InV6Prefix @ [0xc0, 0xa8, 1, 1]"
        "connect_record (v4InV6Prefix @ [0xc0, 0xa8, 1, 1]) 8080"] len lens
  have a: "ipToString (v4InV6Prefix @ [0xc0, 0xa8, 1, 1]) = Inr ''192.168.1.1''"
    and b: "\<exists>srcIP dstIP.
      ipToString (SrcAddr (connect_record (v4InV6Prefix @ [0xc0, 0xa8, 1, 1]) 8080)) = Inr srcIP \<and>
      ipToString (DstAddr (connect_record (v4InV6Prefix @ [0xc0, 0xa8, 1, 1]) 8080)) = Inr dstIP \<and>
      ParseConnectEvent (connect_record (v4InV6Prefix @ [0xc0, 0xa8, 1, 1]) 8080)
        = Inr (srcIP, dstIP, uint (SrcPort (connect_record (v4InV6Prefix @ [0xc0, 0xa8, 1, 1]) 8080)),
               uint (DstPort (connect_record (v4InV6Prefix @ [0xc0, 0xa8, 1, 1]) 8080)),
               protocol_name (cProtocol (connect_record (v4InV6Prefix @ [0xc0, 0xa8, 1, 1]) 8080)))"
    by (simp_all add: v4InV6Prefix_def dotted_192_168_1_1)
  have src: "ipToString (v4InV6Prefix @ [10, 0, 0, 5]) = Inr ''10.0.0.5''"
    using ipToString_16 [of "v4InV6Prefix @ [10, 0, 0, 5]"]
    by (simp add: v4InV6Prefix_def dotted_10_0_0_5)
  from b a src show ?thesis
    by (auto simp: connect_record_def protocol_name_def)
qed

text \<open>
  The port of C6 is not decoded from network byte order. On a little-endian host the
  record whose port field holds the bytes \<open>1F 90\<close> carries the \<open>uint16\<close> 36895, and
  that is the port the decoder returns, not 8080.
\<close>

theorem ParseConnectEvent_port_bytes_counterexample:
  "ParseConnectEvent (connect_record (v4InV6Prefix @ [0xc0, 0xa8, 1, 1])
       (native_uint16 LittleEndian 0x1F 0x90))
     = Inr (''10.0.0.5'', ''192.168.1.1'', 54321, 36895, ''tcp'')"
proof -
  have "ipToString (v4InV6Prefix @ [0xc0, 0xa8, 1, 1]) = Inr ''192.168.1.1''"
    using ipToString_16 [of "v4InV6Prefix @ [0xc0, 0xa8, 1, 1]"]
    by (simp add: v4InV6Prefix_def dotted_192_168_1_1)
  moreover have "ipToString (v4InV6Prefix @ [10, 0, 0, 5]) = Inr ''10.0.0.5''"
    using ipToString_16 [of "v4InV6Prefix @ [10, 0, 0, 5]"]
    by (simp add: v4InV6Prefix_def dotted_10_0_0_5)
  moreover have "uint (native_uint16 LittleEndian 0x1F 0x90) = 36895" by simp
  ultimately show ?thesis
    by (simp add: ParseConnectEvent_def connect_record_def protocol_name_def)
qed

text \<open>
  The conversion from network byte order is made on the capture side: on a
  little-endian host \<open>get_ip_addr\<close> turns the bytes \<open>1F 90\<close> of \<open>sin_port\<close> into
  the field value 8080.
\<close>

lemma get_ip_addr_port_8080: "get_ip_addr_port LittleEndian 0x1F 0x90 = 8080"
  by (simp add: get_ip_addr_port_def bswap16_def)

section \<open>Locking\<close>

lemma LogCommandExit_loop_find:
  "LogCommandExit_loop pid exitCode evs k =
     (case LogCommandExit_find pid evs k of
        None \<Rightarrow> evs
      | Some i \<Rightarrow> evs[i := (evs ! i)\<lparr>ExitCode := exitCode\<rparr>])"
  by (induction k) simp_all

lemma LogCommandExit_find_less: "LogCommandExit_find pid evs k = Some i \<Longrightarrow> i < k"
  by (induction k) (auto split: if_splits)

text \<open>A goroutine that runs \<open>LogCommandExit\<close> with no other one in between does what
  the sequential method does, and gives the lock back.\<close>

lemma run_LogCommandExit_alone:
  "run (case LogCommandExit_find pid (events a) (length (events a)) of
          None \<Rightarrow> [0, 0, 0] | Some i \<Rightarrow> [0, 0, 0, 0])
       \<lparr>store = a, mu = m\<lparr>writer := False\<rparr>, threads = [ExitAtRLock pid exitCode]\<rparr>
     = Some \<lparr>store = LogCommandExit pid exitCode a, mu = m\<lparr>writer := False\<rparr>,
             threads = [Returned None]\<rparr>"
proof (cases "LogCommandExit_find pid (events a) (length (events a))")
  case None
  then show ?thesis
    by (simp add: step_def LogCommandExit_def LogCommandExit_loop_find)
next
  case (Some i)
  with LogCommandExit_find_less [OF Some] show ?thesis
    by (simp add: step_def LogCommandExit_def LogCommandExit_loop_find)
qed

text \<open>
  C9 at a run where the code departs from it. \<open>LogCommandExit\<close> changes the window
  under the shared lock. After four steps both goroutines hold the lock at once and both
  are about to write slot 1; at the end slot 1 holds the code written last, slot 0 is
  untouched and one exit code is lost. Run one after the other, in either order, the
  two calls fill both slots.
\<close>

theorem LogCommandExit_races_under_read_lock:
  "map_option mu (run [0, 1, 0, 1] two_exits) = Some \<lparr>writer = False, readers = 2\<rparr> \<and>
   map_option threads (run [0, 1, 0, 1] two_exits) = Some [ExitWrite 1 1, ExitWrite 1 2] \<and>
   map_option (map ExitCode \<circ> events \<circ> store) (run [0, 1, 0, 1, 0, 1, 0, 1] two_exits)
     = Some [0, 2] \<and>
   map ExitCode (events (LogCommandExit 7 2 (LogCommandExit 7 1 two_pending))) = [2, 1] \<and>
   map ExitCode (events (LogCommandExit 7 1 (LogCommandExit 7 2 two_pending))) = [1, 2]"
  by (simp add: two_exits_def two_pending_def step_def NewAuditor_def command_event_def
      exit_pending_def LogCommandExit_def numeral_2_eq_2)

text \<open>\<open>log\<close>, by contrast, enters its body only when nobody else holds the lock.\<close>

lemma log_takes_exclusive_lock:
  "thread_step (LogAtLock e) a m = Some (t, a', m') \<Longrightarrow>
     \<not> writer m \<and> readers m = 0 \<and> writer m' \<and> readers m' = 0"
  by (auto split: if_splits)

end
